theory Spec2Isabelle
  imports Main "HOL-Library.Word"
begin

section \<open>JavaScript strings\<close>

text \<open>
  A JavaScript string is a sequence of UTF-16 code units, and \<open>length\<close>, the regular
  expression of \<open>isValidEmail\<close> (no \<open>u\<close> flag) and \<open>trim\<close> all work on code units.
  A string is therefore a list of 16-bit words; \<open>js\<close> writes an ASCII literal.
\<close>

type_synonym jschar = "16 word"
type_synonym jsstring = "jschar list"

definition js :: "string \<Rightarrow> jsstring" where
  "js s = map of_char s"

definition is_whitespace :: "jschar \<Rightarrow> bool" where
  \<comment> \<open>the class \<open>\s\<close> of ECMAScript: WhiteSpace and LineTerminator code units\<close>
  "is_whitespace c =
     (c = 0x0009 \<or> c = 0x000A \<or> c = 0x000B \<or> c = 0x000C \<or> c = 0x000D \<or> c = 0x0020
      \<or> c = 0x00A0 \<or> c = 0x1680 \<or> (0x2000 \<le> c \<and> c \<le> 0x200A)
      \<or> c = 0x2028 \<or> c = 0x2029 \<or> c = 0x202F \<or> c = 0x205F \<or> c = 0x3000 \<or> c = 0xFEFF)"

definition trim :: "jsstring \<Rightarrow> jsstring" where
  \<comment> \<open>\<open>String.prototype.trim\<close>\<close>
  "trim s = rev (dropWhile is_whitespace (rev (dropWhile is_whitespace s)))"

section \<open>Regular expressions\<close>

text \<open>
  The fragment of regular expressions that \<open>main.js\<close> uses: a sequence of character
  classes, each taken once or one or more times (\<open>+\<close>), between \<open>^\<close> and \<open>$\<close>.
  \<open>regex_test\<close> is a backtracking matcher, as \<open>RegExp.prototype.test\<close> is.
\<close>

datatype quantifier = Once | OneOrMore

type_synonym regex = "((jschar \<Rightarrow> bool) \<times> quantifier) list"

fun regex_test :: "regex \<Rightarrow> jsstring \<Rightarrow> bool" where
  "regex_test [] s = (s = [])"
| "regex_test ((P, Once) # r) [] = False"
| "regex_test ((P, Once) # r) (c # cs) = (P c \<and> regex_test r cs)"
| "regex_test ((P, OneOrMore) # r) [] = False"
| "regex_test ((P, OneOrMore) # r) (c # cs) =
     (P c \<and> (regex_test ((P, OneOrMore) # r) cs \<or> regex_test r cs))"

section \<open>Email validation\<close>

definition not_space_at :: "jschar \<Rightarrow> bool" where
  \<comment> \<open>the class \<open>[^\s@]\<close>\<close>
  "not_space_at c = (\<not> is_whitespace c \<and> c \<noteq> 0x40)"

definition emailRegex :: regex where
  \<comment> \<open>\<open>/^[^\s@]+@[^\s@]+\.[^\s@]+$/\<close>\<close>
  "emailRegex =
     [(not_space_at, OneOrMore), ((\<lambda>c. c = 0x40), Once),
      (not_space_at, OneOrMore), ((\<lambda>c. c = 0x2E), Once),
      (not_space_at, OneOrMore)]"

definition isValidEmail :: "jsstring \<Rightarrow> bool" where
  "isValidEmail email = regex_test emailRegex email"

definition email_shape :: "jsstring \<Rightarrow> bool" where
  \<comment> \<open>the specification's wording: one or more characters that are neither whitespace
      nor \<open>@\<close>, then \<open>@\<close>, one or more such characters, \<open>.\<close>, one or more such characters\<close>
  "email_shape s =
     (\<exists>a b c. s = a @ [0x40] @ b @ [0x2E] @ c
        \<and> a \<noteq> [] \<and> b \<noteq> [] \<and> c \<noteq> []
        \<and> list_all not_space_at a \<and> list_all not_space_at b \<and> list_all not_space_at c)"

section \<open>JSON\<close>

text \<open>
  \<open>main.js\<close> keeps its attempt record in \<open>localStorage\<close> as JSON text and reads it back
  with \<open>JSON.parse\<close>, which throws a \<open>SyntaxError\<close> on any text outside the JSON grammar.
  The model has the whole grammar: a lexer, and a parser that runs over the tokens with an
  explicit stack. The value of a number literal with a fraction or an exponent is a
  floating-point number and is kept as its literal text; an integer literal is an \<open>int\<close>
  (exact in JavaScript below \<open>2^53\<close>).
\<close>

datatype number = NInt int | NOther jsstring

datatype json = JNull | JBool bool | JNum number | JStr jsstring
  | JArr "json list" | JObj "(jsstring \<times> json) list"

datatype token = LBrace | RBrace | LBracket | RBracket | Colon | Comma
  | TString jsstring | TNumber number | TTrue | TFalse | TNull

definition is_digit :: "jschar \<Rightarrow> bool" where
  "is_digit c = (0x30 \<le> c \<and> c \<le> 0x39)"

definition is_hex_digit :: "jschar \<Rightarrow> bool" where
  "is_hex_digit c = (is_digit c \<or> (0x41 \<le> c \<and> c \<le> 0x46) \<or> (0x61 \<le> c \<and> c \<le> 0x66))"

definition hex_value :: "jschar \<Rightarrow> jschar" where
  "hex_value c = (if is_digit c then c - 0x30 else if c \<le> 0x46 then c - 0x37 else c - 0x57)"

definition unescape :: "jschar \<Rightarrow> jschar option" where
  \<comment> \<open>the character after a backslash, for the escapes of one character\<close>
  "unescape e =
     (if e = 0x22 \<or> e = 0x5C \<or> e = 0x2F then Some e
      else if e = 0x62 then Some 0x08
      else if e = 0x66 then Some 0x0C
      else if e = 0x6E then Some 0x0A
      else if e = 0x72 then Some 0x0D
      else if e = 0x74 then Some 0x09
      else None)"

definition cons_fst :: "'a \<Rightarrow> ('a list \<times> 'b) option \<Rightarrow> ('a list \<times> 'b) option" where
  "cons_fst c r = (case r of None \<Rightarrow> None | Some (s, rest) \<Rightarrow> Some (c # s, rest))"

fun lex_string :: "jsstring \<Rightarrow> (jsstring \<times> jsstring) option" where
  \<comment> \<open>the input after an opening quote: the string's value and the input after the closing quote\<close>
  "lex_string [] = None"
| "lex_string (c # cs) =
     (if c = 0x22 then Some ([], cs)
      else if c = 0x5C then
        (case cs of
           [] \<Rightarrow> None
         | e # es \<Rightarrow>
             if e = 0x75 then
               (case es of
                  h1 # h2 # h3 # h4 # rest \<Rightarrow>
                    if is_hex_digit h1 \<and> is_hex_digit h2 \<and> is_hex_digit h3 \<and> is_hex_digit h4
                    then cons_fst (((hex_value h1 * 16 + hex_value h2) * 16 + hex_value h3) * 16
                                    + hex_value h4) (lex_string rest)
                    else None
                | _ \<Rightarrow> None)
             else (case unescape e of
                     None \<Rightarrow> None
                   | Some u \<Rightarrow> cons_fst u (lex_string es)))
      else if c < 0x20 then None
      else cons_fst c (lex_string cs))"

definition digit_value :: "jschar \<Rightarrow> int" where
  "digit_value c = uint c - 48"

definition decimal_value :: "jsstring \<Rightarrow> int" where
  "decimal_value ds = foldl (\<lambda>a c. a * 10 + digit_value c) 0 ds"

definition lex_int_part :: "jsstring \<Rightarrow> (jsstring \<times> jsstring) option" where
  \<comment> \<open>\<open>0\<close>, or a digit from 1 to 9 and then digits\<close>
  "lex_int_part s =
     (case s of
        [] \<Rightarrow> None
      | c # cs \<Rightarrow>
          if c = 0x30 then Some ([c], cs)
          else if is_digit c then Some (c # takeWhile is_digit cs, dropWhile is_digit cs)
          else None)"

definition lex_digits1 :: "jsstring \<Rightarrow> (jsstring \<times> jsstring) option" where
  "lex_digits1 s =
     (if takeWhile is_digit s = [] then None
      else Some (takeWhile is_digit s, dropWhile is_digit s))"

definition lex_fraction :: "jsstring \<Rightarrow> (jsstring \<times> jsstring) option" where
  "lex_fraction s =
     (case s of
        c # cs \<Rightarrow> if c = 0x2E then cons_fst c (lex_digits1 cs) else Some ([], s)
      | [] \<Rightarrow> Some ([], s))"

definition lex_exponent :: "jsstring \<Rightarrow> (jsstring \<times> jsstring) option" where
  "lex_exponent s =
     (case s of
        c # cs \<Rightarrow>
          if c = 0x65 \<or> c = 0x45 then
            (case cs of
               d # ds \<Rightarrow> if d = 0x2B \<or> d = 0x2D then cons_fst c (cons_fst d (lex_digits1 ds))
                         else cons_fst c (lex_digits1 cs)
             | [] \<Rightarrow> None)
          else Some ([], s)
      | [] \<Rightarrow> Some ([], s))"

definition lex_number :: "jsstring \<Rightarrow> (number \<times> jsstring) option" where
  "lex_number s =
     (let (sign, s1) = (case s of c # cs \<Rightarrow> if c = 0x2D then ([c], cs) else ([], s) | [] \<Rightarrow> ([], s))
      in case lex_int_part s1 of
           None \<Rightarrow> None
         | Some (ip, s2) \<Rightarrow>
             (case lex_fraction s2 of
                None \<Rightarrow> None
              | Some (fp, s3) \<Rightarrow>
                  (case lex_exponent s3 of
                     None \<Rightarrow> None
                   | Some (ep, s4) \<Rightarrow>
                       Some (if fp = [] \<and> ep = []
                             then NInt (if sign = [] then decimal_value ip else - decimal_value ip)
                             else NOther (sign @ ip @ fp @ ep), s4))))"

fun strip_prefix :: "'a list \<Rightarrow> 'a list \<Rightarrow> 'a list option" where
  "strip_prefix [] s = Some s"
| "strip_prefix (p # ps) [] = None"
| "strip_prefix (p # ps) (c # cs) = (if p = c then strip_prefix ps cs else None)"

definition is_json_whitespace :: "jschar \<Rightarrow> bool" where
  "is_json_whitespace c = (c = 0x20 \<or> c = 0x09 \<or> c = 0x0A \<or> c = 0x0D)"

definition punctuation :: "jschar \<Rightarrow> token option" where
  "punctuation c =
     (if c = 0x7B then Some LBrace else if c = 0x7D then Some RBrace
      else if c = 0x5B then Some LBracket else if c = 0x5D then Some RBracket
      else if c = 0x3A then Some Colon else if c = 0x2C then Some Comma
      else None)"

definition keyword :: "jsstring \<Rightarrow> (token \<times> jsstring) option" where
  "keyword s =
     (case strip_prefix (js ''true'') s of Some r \<Rightarrow> Some (TTrue, r) | None \<Rightarrow>
      (case strip_prefix (js ''false'') s of Some r \<Rightarrow> Some (TFalse, r) | None \<Rightarrow>
       (case strip_prefix (js ''null'') s of Some r \<Rightarrow> Some (TNull, r) | None \<Rightarrow> None)))"

definition next_token :: "jschar \<Rightarrow> jsstring \<Rightarrow> (token \<times> jsstring) option" where
  \<comment> \<open>the token that starts at the non-blank character \<open>c\<close>, and the input after it\<close>
  "next_token c cs =
     (case punctuation c of
        Some t \<Rightarrow> Some (t, cs)
      | None \<Rightarrow>
          if c = 0x22 then map_option (\<lambda>(s, r). (TString s, r)) (lex_string cs)
          else if c = 0x2D \<or> is_digit c
            then map_option (\<lambda>(n, r). (TNumber n, r)) (lex_number (c # cs))
          else keyword (c # cs))"

subsection \<open>Every token consumes input, so the lexer terminates\<close>

lemma cons_fst_Some: "cons_fst c r = Some (s, rest) \<Longrightarrow> \<exists>s'. r = Some (s', rest)"
  by (auto simp: cons_fst_def split: option.splits)

lemma lex_string_length: "lex_string s = Some (t, rest) \<Longrightarrow> length rest < length s"
proof (induction s arbitrary: t rest rule: lex_string.induct)
  case 1
  then show ?case by simp
next
  case (2 c cs)
  then show ?case
    by (fastforce split: if_splits list.splits option.splits dest!: cons_fst_Some)
qed

lemma strip_prefix_length: "strip_prefix p s = Some rest \<Longrightarrow> length rest + length p = length s"
  by (induction p s rule: strip_prefix.induct) (auto split: if_splits)

lemma keyword_length: "keyword s = Some (t, rest) \<Longrightarrow> length rest < length s"
  by (auto simp: keyword_def js_def split: option.splits dest!: strip_prefix_length)

lemma lex_digits1_length: "lex_digits1 s = Some (d, rest) \<Longrightarrow> length rest \<le> length s"
  by (auto simp: lex_digits1_def length_dropWhile_le split: if_splits)

lemma lex_fraction_length: "lex_fraction s = Some (d, rest) \<Longrightarrow> length rest \<le> length s"
  by (fastforce simp: lex_fraction_def split: list.splits if_splits
        dest!: cons_fst_Some lex_digits1_length)

lemma lex_exponent_length: "lex_exponent s = Some (d, rest) \<Longrightarrow> length rest \<le> length s"
  by (fastforce simp: lex_exponent_def split: list.splits if_splits
        dest!: cons_fst_Some lex_digits1_length)

lemma lex_int_part_length: "lex_int_part s = Some (d, rest) \<Longrightarrow> length rest < length s"
  by (auto simp: lex_int_part_def length_dropWhile_le less_Suc_eq_le split: list.splits if_splits)

lemma lex_number_length: "lex_number s = Some (n, rest) \<Longrightarrow> length rest < length s"
  by (fastforce simp: lex_number_def Let_def split: list.splits if_splits option.splits prod.splits
        dest!: lex_int_part_length lex_fraction_length lex_exponent_length)

lemma next_token_length: "next_token c cs = Some (t, rest) \<Longrightarrow> length rest \<le> length cs"
  by (fastforce simp: next_token_def split: option.splits if_splits
        dest!: lex_string_length lex_number_length keyword_length)

function lex :: "jsstring \<Rightarrow> token list option" where
  "lex [] = Some []"
| "lex (c # cs) =
     (if is_json_whitespace c then lex cs
      else case next_token c cs of
             None \<Rightarrow> None
           | Some (t, rest) \<Rightarrow> map_option (Cons t) (lex rest))"
  by pat_completeness auto
termination
  by (relation "measure length") (auto dest: next_token_length simp: less_Suc_eq_le)

subsection \<open>The parser\<close>

text \<open>
  A frame is a container still open: an array with the elements read so far, or an object
  with its members and the key whose value is being read. The parser state says what may
  come next; \<open>AfterValue v []\<close> at the end of the tokens is the parsed value \<open>v\<close>.
\<close>

datatype frame = InArray "json list" | InObject "(jsstring \<times> json) list" jsstring

datatype parser_state =
    ExpectValue "frame list"
  | ArrayOpened "frame list"
  | ObjectOpened "frame list"
  | ExpectKey "(jsstring \<times> json) list" "frame list"
  | ExpectColon "(jsstring \<times> json) list" jsstring "frame list"
  | AfterValue json "frame list"

fun start_value :: "token \<Rightarrow> frame list \<Rightarrow> parser_state option" where
  "start_value LBrace stk = Some (ObjectOpened stk)"
| "start_value LBracket stk = Some (ArrayOpened stk)"
| "start_value (TString s) stk = Some (AfterValue (JStr s) stk)"
| "start_value (TNumber n) stk = Some (AfterValue (JNum n) stk)"
| "start_value TTrue stk = Some (AfterValue (JBool True) stk)"
| "start_value TFalse stk = Some (AfterValue (JBool False) stk)"
| "start_value TNull stk = Some (AfterValue JNull stk)"
| "start_value _ stk = None"

fun parse_step :: "parser_state \<Rightarrow> token \<Rightarrow> parser_state option" where
  "parse_step (ExpectValue stk) t = start_value t stk"
| "parse_step (ArrayOpened stk) t =
     (if t = RBracket then Some (AfterValue (JArr []) stk)
      else start_value t (InArray [] # stk))"
| "parse_step (ObjectOpened stk) t =
     (case t of
        RBrace \<Rightarrow> Some (AfterValue (JObj []) stk)
      | TString k \<Rightarrow> Some (ExpectColon [] k stk)
      | _ \<Rightarrow> None)"
| "parse_step (ExpectKey kvs stk) t =
     (case t of TString k \<Rightarrow> Some (ExpectColon kvs k stk) | _ \<Rightarrow> None)"
| "parse_step (ExpectColon kvs k stk) t =
     (if t = Colon then Some (ExpectValue (InObject kvs k # stk)) else None)"
| "parse_step (AfterValue v []) t = None"
| "parse_step (AfterValue v (InArray vs # stk)) t =
     (if t = Comma then Some (ExpectValue (InArray (vs @ [v]) # stk))
      else if t = RBracket then Some (AfterValue (JArr (vs @ [v])) stk)
      else None)"
| "parse_step (AfterValue v (InObject kvs k # stk)) t =
     (if t = Comma then Some (ExpectKey (kvs @ [(k, v)]) stk)
      else if t = RBrace then Some (AfterValue (JObj (kvs @ [(k, v)])) stk)
      else None)"

fun parse_tokens :: "parser_state \<Rightarrow> token list \<Rightarrow> json option" where
  "parse_tokens (AfterValue v []) [] = Some v"
| "parse_tokens st [] = None"
| "parse_tokens st (t # ts) =
     (case parse_step st t of None \<Rightarrow> None | Some st' \<Rightarrow> parse_tokens st' ts)"

subsection \<open>Numbers as text\<close>

fun show_nat :: "nat \<Rightarrow> jsstring" where
  "show_nat n =
     (if n < 10 then [0x30 + of_nat n]
      else show_nat (n div 10) @ [0x30 + of_nat (n mod 10)])"

declare show_nat.simps [simp del]

definition show_int :: "int \<Rightarrow> jsstring" where
  \<comment> \<open>the decimal text of an integer, as template literals and \<open>JSON.stringify\<close>
      produce it (JavaScript does so below \<open>10^21\<close>, far above any count or clock reading)\<close>
  "show_int i = (if i < 0 then 0x2D # show_nat (nat (- i)) else show_nat (nat i))"

definition ends_number :: "jschar \<Rightarrow> bool" where
  \<comment> \<open>a character that cannot continue a number literal\<close>
  "ends_number t = (\<not> is_digit t \<and> t \<noteq> 0x2E \<and> t \<noteq> 0x65 \<and> t \<noteq> 0x45)"

section \<open>Configuration and state of \<open>main.js\<close>\<close>

record config =
  maxLoginAttempts :: int
  lockoutDuration :: int
  minPasswordLength :: int
  enableRateLimiting :: bool

definition CONFIG :: config where
  "CONFIG = \<lparr>maxLoginAttempts = 5, lockoutDuration = 15 * 60 * 1000,
             minPasswordLength = 6, enableRateLimiting = True\<rparr>"

record attempt_record =
  count :: int
  timestamp :: int

text \<open>
  What the identity provider rejects with: an object whose \<open>code\<close> and \<open>message\<close>
  properties \<open>handleLoginError\<close> reads (\<open>None\<close> is \<open>undefined\<close>).
\<close>

record provider_error =
  code :: "jsstring option"
  message :: "jsstring option"

datatype error = SyntaxError | ReferenceError | AuthError provider_error

datatype message_type = InfoMsg | SuccessMsg | WarningMsg | ErrorMsg

datatype persistence = browserLocalPersistence | browserSessionPersistence

text \<open>
  The calls that leave the module: to the page (the helpers \<open>showMessage\<close>,
  \<open>clearMessages\<close>, \<open>showFieldError\<close>, \<open>setLoading\<close>, the loop that disables the
  controls of the form, \<open>setTimeout\<close> with the redirection), to the console and to the
  identity provider. The state keeps them in the order they were made. The helpers
  themselves only write to the elements of the page, and do nothing when the element is
  missing; the model stops at the call.
\<close>

datatype event =
    PreventDefault
  | ConsoleError error
  | ShowMessage jsstring message_type
  | ClearMessages
  | ShowFieldError jsstring jsstring
  | SetLoading bool jsstring
  | DisableFormInputs
  | SetPersistence persistence
  | SignInWithEmailAndPassword "jsstring option" "jsstring option"
  | SignInWithPopup "jsstring list"
  | RedirectAfter jsstring int

text \<open>
  \<open>localStorage\<close> is the item stored under the key \<open>loginAttempts\<close>. \<open>loginAttempts\<close>
  and \<open>isLocked\<close> are the two module variables of lines 26 and 27; \<open>isLocked\<close> is
  \<open>None\<close> while its \<open>let\<close> declaration has not finished its initialiser: reading or
  assigning the variable then throws a \<open>ReferenceError\<close>. \<open>loginForm\<close> says whether the
  page has the element \<open>login-form\<close>.
\<close>

record world =
  localStorage :: "jsstring option"
  loginAttempts :: attempt_record
  isLocked :: "bool option"
  loginForm :: bool
  trace :: "event list"

text \<open>
  A call returns a value, or throws, in both cases with the state it leaves behind.
  \<open>Unmodelled\<close> stands for the runs this model does not follow: those on a stored value
  that is JSON but not an object \<open>{count, timestamp}\<close> of two integers, where JavaScript
  goes on with coerced values, and those that would render the text of an exception of
  the engine.
\<close>

datatype 'a result = Return 'a world | Throw error world | Unmodelled

definition try_catch :: "unit result \<Rightarrow> (error \<Rightarrow> world \<Rightarrow> unit result) \<Rightarrow> unit result" where
  "try_catch r handler = (case r of Throw e w \<Rightarrow> handler e w | _ \<Rightarrow> r)"

definition try_finally :: "(world \<Rightarrow> world) \<Rightarrow> 'a result \<Rightarrow> 'a result" where
  "try_finally f r =
     (case r of Return a w \<Rightarrow> Return a (f w) | Throw e w \<Rightarrow> Throw e (f w) | Unmodelled \<Rightarrow> Unmodelled)"

definition emit :: "event \<Rightarrow> world \<Rightarrow> world" where
  "emit ev w = w\<lparr>trace := trace w @ [ev]\<rparr>"

definition showMessage :: "jsstring \<Rightarrow> message_type \<Rightarrow> world \<Rightarrow> world" where
  "showMessage text type w = emit (ShowMessage text type) w"

definition clearMessages :: "world \<Rightarrow> world" where
  "clearMessages w = emit ClearMessages w"

definition showFieldError :: "jsstring \<Rightarrow> jsstring \<Rightarrow> world \<Rightarrow> world" where
  "showFieldError fieldName text w = emit (ShowFieldError fieldName text) w"

definition setLoading :: "bool \<Rightarrow> jsstring \<Rightarrow> world \<Rightarrow> world" where
  "setLoading v buttonId w = emit (SetLoading v buttonId) w"

fun loading_after :: "jsstring \<Rightarrow> bool \<Rightarrow> event list \<Rightarrow> bool" where
  \<comment> \<open>whether the button has the class \<open>loading\<close> after the calls, given whether it had it before\<close>
  "loading_after b s [] = s"
| "loading_after b s (SetLoading v b' # evs) = loading_after b (if b' = b then v else s) evs"
| "loading_after b s (_ # evs) = loading_after b s evs"

definition is_provider_call :: "event \<Rightarrow> bool" where
  "is_provider_call ev =
     (case ev of SetPersistence _ \<Rightarrow> True | SignInWithEmailAndPassword _ _ \<Rightarrow> True
               | SignInWithPopup _ \<Rightarrow> True | _ \<Rightarrow> False)"

definition is_field_error :: "event \<Rightarrow> bool" where
  "is_field_error ev = (case ev of ShowFieldError _ _ \<Rightarrow> True | _ \<Rightarrow> False)"

section \<open>Attempt tracker\<close>

definition JSON_parse :: "jsstring \<Rightarrow> error + json" where
  "JSON_parse text =
     (case lex text of
        None \<Rightarrow> Inl SyntaxError
      | Some ts \<Rightarrow>
          (case parse_tokens (ExpectValue []) ts of
             None \<Rightarrow> Inl SyntaxError
           | Some v \<Rightarrow> Inr v))"

definition quoted :: "jsstring \<Rightarrow> jsstring" where
  "quoted s = 0x22 # s @ [0x22]"

definition JSON_stringify :: "attempt_record \<Rightarrow> jsstring" where
  \<comment> \<open>\<open>JSON.stringify\<close> on an object with the integer properties \<open>count\<close> and \<open>timestamp\<close>\<close>
  "JSON_stringify r =
     [0x7B] @ quoted (js ''count'') @ [0x3A] @ show_int (count r) @ [0x2C]
       @ quoted (js ''timestamp'') @ [0x3A] @ show_int (timestamp r) @ [0x7D]"

definition json_of_attempts :: "attempt_record \<Rightarrow> json" where
  "json_of_attempts r =
     JObj [(js ''count'', JNum (NInt (count r))), (js ''timestamp'', JNum (NInt (timestamp r)))]"

fun as_attempts :: "json \<Rightarrow> attempt_record option" where
  "as_attempts (JObj [(k1, JNum (NInt c)), (k2, JNum (NInt t))]) =
     (if k1 = js ''count'' \<and> k2 = js ''timestamp'' then Some \<lparr>count = c, timestamp = t\<rparr> else None)"
| "as_attempts _ = None"

definition getLoginAttempts :: "int \<Rightarrow> jsstring option \<Rightarrow> error + json" where
  \<comment> \<open>lines 291 to 294; \<open>attempts\<close> is what \<open>localStorage.getItem\<close> returned, \<open>None\<close> for
      \<open>null\<close>. The condition \<open>attempts ? \<dots>\<close> is false on \<open>null\<close> and on the empty string.\<close>
  "getLoginAttempts now attempts =
     (case attempts of
        None \<Rightarrow> Inr (json_of_attempts \<lparr>count = 0, timestamp = now\<rparr>)
      | Some text \<Rightarrow>
          if text = [] then Inr (json_of_attempts \<lparr>count = 0, timestamp = now\<rparr>)
          else JSON_parse text)"

definition assign_isLocked :: "bool \<Rightarrow> world \<Rightarrow> unit result" where
  \<comment> \<open>\<open>isLocked = v\<close>; a \<open>ReferenceError\<close> while the variable is not initialised\<close>
  "assign_isLocked v w =
     (case isLocked w of
        None \<Rightarrow> Throw ReferenceError w
      | Some _ \<Rightarrow> Return () (w\<lparr>isLocked := Some v\<rparr>))"

definition resetLoginAttempts :: "int \<Rightarrow> world \<Rightarrow> unit result" where
  \<comment> \<open>lines 309 to 313\<close>
  "resetLoginAttempts now w =
     assign_isLocked False
       (w\<lparr>loginAttempts := \<lparr>count = 0, timestamp = now\<rparr>, localStorage := None\<rparr>)"

definition remainingTime :: "config \<Rightarrow> int \<Rightarrow> world \<Rightarrow> int" where
  \<comment> \<open>line 333: \<open>Math.ceil((lockoutDuration - (now - timestamp)) / 60000)\<close>\<close>
  "remainingTime cfg now w =
     - ((- (lockoutDuration cfg - (now - timestamp (loginAttempts w)))) div 60000)"

definition lockoutMessage :: "int \<Rightarrow> jsstring" where
  "lockoutMessage minutes =
     js ''Account temporarily locked due to too many failed attempts. Try again in ''
       @ show_int minutes @ js '' minutes.''"

definition showLockoutMessage :: "config \<Rightarrow> int \<Rightarrow> world \<Rightarrow> world" where
  \<comment> \<open>lines 332 to 341\<close>
  "showLockoutMessage cfg now w =
     (let w1 = showMessage (lockoutMessage (remainingTime cfg now w)) ErrorMsg w
      in if loginForm w1 then emit DisableFormInputs w1 else w1)"

definition incrementLoginAttempts :: "config \<Rightarrow> int \<Rightarrow> world \<Rightarrow> unit result" where
  \<comment> \<open>lines 296 to 307\<close>
  "incrementLoginAttempts cfg now w =
     (if \<not> enableRateLimiting cfg then Return () w
      else
        let attempts = \<lparr>count = count (loginAttempts w) + 1, timestamp = now\<rparr>;
            w1 = w\<lparr>loginAttempts := attempts, localStorage := Some (JSON_stringify attempts)\<rparr>
        in if count attempts \<ge> maxLoginAttempts cfg then
             (case assign_isLocked True w1 of
                Return _ w2 \<Rightarrow> Return () (showLockoutMessage cfg now w2)
              | Throw e w2 \<Rightarrow> Throw e w2
              | Unmodelled \<Rightarrow> Unmodelled)
           else Return () w1)"

definition checkLockout :: "config \<Rightarrow> int \<Rightarrow> world \<Rightarrow> bool result" where
  \<comment> \<open>lines 315 to 330\<close>
  "checkLockout cfg now w =
     (if \<not> enableRateLimiting cfg then Return False w
      else
        case getLoginAttempts now (localStorage w) of
          Inl e \<Rightarrow> Throw e w
        | Inr v \<Rightarrow>
            (case as_attempts v of
               None \<Rightarrow> Unmodelled
             | Some attempts \<Rightarrow>
                 if count attempts \<ge> maxLoginAttempts cfg then
                   (let timeSinceLockout = now - timestamp attempts
                    in if timeSinceLockout < lockoutDuration cfg then Return True w
                       else
                         (case resetLoginAttempts now w of
                            Return _ w1 \<Rightarrow> Return False w1
                          | Throw e w1 \<Rightarrow> Throw e w1
                          | Unmodelled \<Rightarrow> Unmodelled))
                 else Return False w))"

text \<open>
  Lines 26 and 27, which run once when the module is loaded:
  \<^verbatim>\<open>let loginAttempts = getLoginAttempts();\<close>
  \<^verbatim>\<open>let isLocked = checkLockout();\<close>
  \<open>checkLockout\<close> runs as the initialiser of \<open>isLocked\<close>, so the variable is not
  initialised during that call. When the load fails, the exception ends the module (the
  listeners of line 40 and below are never registered) and what stays is the storage.
\<close>

datatype load_result = Loaded world | LoadFailed error "jsstring option" | LoadUnmodelled

definition module_load :: "config \<Rightarrow> int \<Rightarrow> bool \<Rightarrow> jsstring option \<Rightarrow> load_result" where
  "module_load cfg now form stored =
     (case getLoginAttempts now stored of
        Inl e \<Rightarrow> LoadFailed e stored
      | Inr v \<Rightarrow>
          (case as_attempts v of
             None \<Rightarrow> LoadUnmodelled
           | Some attempts \<Rightarrow>
               (case checkLockout cfg now
                       \<lparr>localStorage = stored, loginAttempts = attempts, isLocked = None,
                        loginForm = form, trace = []\<rparr> of
                  Return locked w \<Rightarrow> Loaded (w\<lparr>isLocked := Some locked\<rparr>)
                | Throw e w \<Rightarrow> LoadFailed e (localStorage w)
                | Unmodelled \<Rightarrow> LoadUnmodelled)))"

section \<open>Form validation\<close>

definition validateForm :: "config \<Rightarrow> jsstring option \<Rightarrow> jsstring option \<Rightarrow> world \<Rightarrow> bool \<times> world" where
  \<comment> \<open>lines 188 to 210; \<open>None\<close> is the \<open>undefined\<close> or \<open>null\<close> of a field that the form
      does not have, and \<open>!email\<close> holds of it and of the empty string\<close>
  "validateForm cfg email password w =
     (let (emailOk, w1) =
            (case email of
               None \<Rightarrow> (False, showFieldError (js ''email'') (js ''Email is required'') w)
             | Some e \<Rightarrow>
                 if e = [] then (False, showFieldError (js ''email'') (js ''Email is required'') w)
                 else if \<not> isValidEmail e
                   then (False, showFieldError (js ''email'')
                                  (js ''Please enter a valid email address'') w)
                 else (True, w));
          (passwordOk, w2) =
            (case password of
               None \<Rightarrow> (False, showFieldError (js ''password'') (js ''Password is required'') w1)
             | Some p \<Rightarrow>
                 if p = [] then (False, showFieldError (js ''password'') (js ''Password is required'') w1)
                 else if int (length p) < minPasswordLength cfg
                   then (False, showFieldError (js ''password'')
                                  (js ''Password must be at least '' @ show_int (minPasswordLength cfg)
                                     @ js '' characters'') w1)
                 else (True, w1))
      in (emailOk \<and> passwordOk, w2))"

text \<open>
  The field errors of the specification's \<open>ValidationResult\<close>: what \<open>validateForm\<close> renders
  for the email and for the password; the form is valid when there is none.
\<close>

definition email_errors :: "jsstring option \<Rightarrow> event list" where
  "email_errors email =
     (case email of
        None \<Rightarrow> [ShowFieldError (js ''email'') (js ''Email is required'')]
      | Some e \<Rightarrow>
          if e = [] then [ShowFieldError (js ''email'') (js ''Email is required'')]
          else if \<not> isValidEmail e
            then [ShowFieldError (js ''email'') (js ''Please enter a valid email address'')]
          else [])"

definition password_errors :: "config \<Rightarrow> jsstring option \<Rightarrow> event list" where
  "password_errors cfg password =
     (case password of
        None \<Rightarrow> [ShowFieldError (js ''password'') (js ''Password is required'')]
      | Some p \<Rightarrow>
          if p = [] then [ShowFieldError (js ''password'') (js ''Password is required'')]
          else if int (length p) < minPasswordLength cfg
            then [ShowFieldError (js ''password'')
                    (js ''Password must be at least '' @ show_int (minPasswordLength cfg)
                       @ js '' characters'')]
          else [])"

section \<open>Error translation\<close>

definition login_error_message :: "provider_error \<Rightarrow> jsstring" where
  \<comment> \<open>the \<open>switch\<close> of lines 256 to 285\<close>
  "login_error_message err =
     (if code err = Some (js ''auth/user-not-found'')
        then js ''No account found with this email address.''
      else if code err = Some (js ''auth/wrong-password'')
        then js ''Incorrect password. Please try again.''
      else if code err = Some (js ''auth/invalid-email'')
        then js ''Please enter a valid email address.''
      else if code err = Some (js ''auth/user-disabled'')
        then js ''This account has been disabled. Please contact support.''
      else if code err = Some (js ''auth/too-many-requests'')
        then js ''Too many failed attempts. Please try again later.''
      else if code err = Some (js ''auth/network-request-failed'')
        then js ''Network error. Please check your connection and try again.''
      else if code err = Some (js ''auth/popup-closed-by-user'')
        then js ''Sign-in was cancelled. Please try again.''
      else if code err = Some (js ''auth/popup-blocked'')
        then js ''Pop-up was blocked. Please allow pop-ups and try again.''
      else
        (case message err of
           None \<Rightarrow> js ''An unexpected error occurred. Please try again.''
         | Some m \<Rightarrow>
             if m = [] then js ''An unexpected error occurred. Please try again.'' else m))"

definition known_codes :: "jsstring list" where
  "known_codes =
     [js ''auth/user-not-found'', js ''auth/wrong-password'', js ''auth/invalid-email'',
      js ''auth/user-disabled'', js ''auth/too-many-requests'', js ''auth/network-request-failed'',
      js ''auth/popup-closed-by-user'', js ''auth/popup-blocked'']"

definition handleLoginError :: "error \<Rightarrow> world \<Rightarrow> unit result" where
  \<comment> \<open>lines 253 to 288, on what the provider rejected with\<close>
  "handleLoginError e w =
     (case e of
        AuthError err \<Rightarrow>
          Return () (showMessage (login_error_message err) ErrorMsg (emit (ConsoleError e) w))
      | _ \<Rightarrow> Unmodelled)"

section \<open>Login controller\<close>

text \<open>
  What a submission carries: the values \<open>FormData.get\<close> returns for the three fields
  (\<open>None\<close> for \<open>null\<close>).
\<close>

record form_data =
  email_field :: "jsstring option"
  password_field :: "jsstring option"
  remember_field :: "jsstring option"

text \<open>
  The handlers are asynchronous: they wait for the provider, and go on when it has
  answered. The answers are arguments (\<open>None\<close>: the call resolved, \<open>Some err\<close>: it
  rejected with \<open>err\<close>), and so are the two readings of the clock, \<open>now\<close> when the handler
  starts and \<open>later\<close> when the provider has answered. Nothing else runs in between.
\<close>

definition login_try ::
  "bool \<Rightarrow> jsstring option \<Rightarrow> jsstring option \<Rightarrow> provider_error option \<Rightarrow> provider_error option
     \<Rightarrow> int \<Rightarrow> world \<Rightarrow> unit result" where
  \<comment> \<open>the \<open>try\<close> block of \<open>handleLogin\<close>, lines 121 to 136\<close>
  "login_try rememberMe email password persisted signedIn later w =
     (let w1 = emit (SetPersistence (if rememberMe then browserLocalPersistence
                                     else browserSessionPersistence)) w
      in case persisted of
           Some err \<Rightarrow> Throw (AuthError err) w1
         | None \<Rightarrow>
             (let w2 = emit (SignInWithEmailAndPassword email password) w1
              in case signedIn of
                   Some err \<Rightarrow> Throw (AuthError err) w2
                 | None \<Rightarrow>
                     (case resetLoginAttempts later w2 of
                        Return _ w3 \<Rightarrow>
                          Return () (emit (RedirectAfter (js ''logged.html'') 1500)
                            (showMessage (js ''Login successful! Redirecting...'') SuccessMsg w3))
                      | Throw e w3 \<Rightarrow> Throw e w3
                      | Unmodelled \<Rightarrow> Unmodelled)))"

definition login_catch :: "config \<Rightarrow> int \<Rightarrow> error \<Rightarrow> world \<Rightarrow> unit result" where
  \<comment> \<open>the \<open>catch\<close> block of both handlers, lines 139 to 140 and 174 to 175\<close>
  "login_catch cfg later e w =
     (case handleLoginError e w of
        Return _ w1 \<Rightarrow> incrementLoginAttempts cfg later w1
      | Throw e1 w1 \<Rightarrow> Throw e1 w1
      | Unmodelled \<Rightarrow> Unmodelled)"

definition handleLogin ::
  "config \<Rightarrow> form_data \<Rightarrow> provider_error option \<Rightarrow> provider_error option \<Rightarrow> int \<Rightarrow> int
     \<Rightarrow> world \<Rightarrow> unit result" where
  \<comment> \<open>lines 99 to 144\<close>
  "handleLogin cfg form persisted signedIn now later w0 =
     (let w = emit PreventDefault w0
      in case isLocked w of
           None \<Rightarrow> Throw ReferenceError w
         | Some locked \<Rightarrow>
             if locked then Return () (showLockoutMessage cfg now w)
             else
               (let email = map_option trim (email_field form);
                    password = password_field form;
                    rememberMe = (remember_field form = Some (js ''on''));
                    (valid, w1) = validateForm cfg email password w
                in if \<not> valid then Return () w1
                   else
                     try_finally (setLoading False (js ''login-btn''))
                       (try_catch
                          (login_try rememberMe email password persisted signedIn later
                             (clearMessages (setLoading True (js ''login-btn'') w1)))
                          (login_catch cfg later))))"

definition google_try :: "provider_error option \<Rightarrow> int \<Rightarrow> world \<Rightarrow> unit result" where
  \<comment> \<open>the \<open>try\<close> block of \<open>handleGoogleLogin\<close>, lines 157 to 171\<close>
  "google_try signedIn later w =
     (let w1 = emit (SignInWithPopup [js ''email'', js ''profile'']) w
      in case signedIn of
           Some err \<Rightarrow> Throw (AuthError err) w1
         | None \<Rightarrow>
             (case resetLoginAttempts later w1 of
                Return _ w2 \<Rightarrow>
                  Return () (emit (RedirectAfter (js ''logged.html'') 1500)
                    (showMessage (js ''Google login successful! Redirecting...'') SuccessMsg w2))
              | Throw e w2 \<Rightarrow> Throw e w2
              | Unmodelled \<Rightarrow> Unmodelled))"

definition handleGoogleLogin ::
  "config \<Rightarrow> provider_error option \<Rightarrow> int \<Rightarrow> int \<Rightarrow> world \<Rightarrow> unit result" where
  \<comment> \<open>lines 147 to 179\<close>
  "handleGoogleLogin cfg signedIn now later w =
     (case isLocked w of
        None \<Rightarrow> Throw ReferenceError w
      | Some locked \<Rightarrow>
          if locked then Return () (showLockoutMessage cfg now w)
          else
            try_finally (setLoading False (js ''google-login-btn''))
              (try_catch
                 (google_try signedIn later
                    (clearMessages (setLoading True (js ''google-login-btn'') w)))
                 (login_catch cfg later)))"

section \<open>The states the handlers lead to\<close>

text \<open>
  Once the module is loaded \<open>isLocked\<close> is initialised and no assignment to it throws.
  The following are the states that \<open>resetLoginAttempts\<close>, \<open>incrementLoginAttempts\<close> and
  the steps of the handlers then lead to; the lemmas below relate them to the handlers.
\<close>

definition reset_state :: "int \<Rightarrow> world \<Rightarrow> world" where
  "reset_state now w =
     w\<lparr>loginAttempts := \<lparr>count = 0, timestamp = now\<rparr>, localStorage := None, isLocked := Some False\<rparr>"

definition increment_state :: "config \<Rightarrow> int \<Rightarrow> world \<Rightarrow> world" where
  "increment_state cfg now w =
     (if \<not> enableRateLimiting cfg then w
      else
        let attempts = \<lparr>count = count (loginAttempts w) + 1, timestamp = now\<rparr>;
            w1 = w\<lparr>loginAttempts := attempts, localStorage := Some (JSON_stringify attempts)\<rparr>
        in if count attempts \<ge> maxLoginAttempts cfg
           then showLockoutMessage cfg now (w1\<lparr>isLocked := Some True\<rparr>)
           else w1)"

definition failure_state :: "config \<Rightarrow> int \<Rightarrow> provider_error \<Rightarrow> world \<Rightarrow> world" where
  "failure_state cfg later err w =
     increment_state cfg later
       (showMessage (login_error_message err) ErrorMsg (emit (ConsoleError (AuthError err)) w))"

definition submitted_email :: "form_data \<Rightarrow> jsstring option" where
  "submitted_email form = map_option trim (email_field form)"

definition form_valid :: "config \<Rightarrow> form_data \<Rightarrow> bool" where
  "form_valid cfg form =
     (email_errors (submitted_email form) = [] \<and> password_errors cfg (password_field form) = [])"

definition login_started :: "form_data \<Rightarrow> world \<Rightarrow> world" where
  "login_started form w =
     emit (SetPersistence (if remember_field form = Some (js ''on'') then browserLocalPersistence
                           else browserSessionPersistence))
       (clearMessages (setLoading True (js ''login-btn'') (emit PreventDefault w)))"

definition login_attempted :: "form_data \<Rightarrow> world \<Rightarrow> world" where
  "login_attempted form w =
     emit (SignInWithEmailAndPassword (submitted_email form) (password_field form))
       (login_started form w)"

definition google_attempted :: "world \<Rightarrow> world" where
  "google_attempted w =
     emit (SignInWithPopup [js ''email'', js ''profile''])
       (clearMessages (setLoading True (js ''google-login-btn'') w))"

section \<open>Runs of several failures\<close>

text \<open>
  \<open>iterate f ts\<close> runs \<open>f\<close> once for each clock reading of \<open>ts\<close>, each run starting in
  the state the one before left, and stops at the first run that throws.
\<close>

fun iterate :: "(int \<Rightarrow> world \<Rightarrow> unit result) \<Rightarrow> int list \<Rightarrow> world \<Rightarrow> unit result" where
  "iterate f [] w = Return () w"
| "iterate f (t # ts) w =
     (case f t w of
        Return _ w' \<Rightarrow> iterate f ts w'
      | Throw e w' \<Rightarrow> Throw e w'
      | Unmodelled \<Rightarrow> Unmodelled)"

definition record_failures :: "config \<Rightarrow> int list \<Rightarrow> world \<Rightarrow> unit result" where
  "record_failures cfg ts w = iterate (incrementLoginAttempts cfg) ts w"

definition login_failures ::
  "config \<Rightarrow> form_data \<Rightarrow> provider_error \<Rightarrow> int list \<Rightarrow> world \<Rightarrow> unit result" where
  "login_failures cfg form err ts w = iterate (\<lambda>t. handleLogin cfg form None (Some err) t t) ts w"

definition popup_failures :: "config \<Rightarrow> provider_error \<Rightarrow> int list \<Rightarrow> world \<Rightarrow> unit result" where
  "popup_failures cfg err ts w = iterate (\<lambda>t. handleGoogleLogin cfg (Some err) t t) ts w"

section \<open>Example inputs\<close>

text \<open>
  \<open>fresh\<close> is the state of a page loaded at time 0 with nothing stored and the login form
  present (\<open>module_load_absent\<close> below).
\<close>

definition fresh :: world where
  "fresh = \<lparr>localStorage = None, loginAttempts = \<lparr>count = 0, timestamp = 0\<rparr>,
            isLocked = Some False, loginForm = True, trace = []\<rparr>"

definition good_form :: form_data where
  "good_form = \<lparr>email_field = Some (js ''a@b.co''), password_field = Some (js ''secret1''),
                remember_field = None\<rparr>"

definition bad_form :: form_data where
  "bad_form = \<lparr>email_field = Some (js ''a@b''), password_field = Some (js ''secret1''),
               remember_field = None\<rparr>"

definition wrong_password :: provider_error where
  "wrong_password = \<lparr>code = Some (js ''auth/wrong-password''), message = Some (js ''Firebase: Error'')\<rparr>"

definition popup_closed :: provider_error where
  "popup_closed = \<lparr>code = Some (js ''auth/popup-closed-by-user''), message = Some (js ''Firebase: Error'')\<rparr>"

section \<open>Properties of the matcher\<close>

lemma regex_test_Once:
  "regex_test ((P, Once) # r) s \<longleftrightarrow> (\<exists>c t. s = c # t \<and> P c \<and> regex_test r t)"
  by (cases s) auto

lemma regex_test_OneOrMore:
  "regex_test ((P, OneOrMore) # r) s
     \<longleftrightarrow> (\<exists>a t. s = a @ t \<and> a \<noteq> [] \<and> list_all P a \<and> regex_test r t)"
proof (induction s)
  case Nil
  then show ?case by simp
next
  case (Cons c cs)
  show ?case
  proof
    assume m: "regex_test ((P, OneOrMore) # r) (c # cs)"
    then have pc: "P c" by simp
    from m consider "regex_test ((P, OneOrMore) # r) cs" | "regex_test r cs" by auto
    then show "\<exists>a t. c # cs = a @ t \<and> a \<noteq> [] \<and> list_all P a \<and> regex_test r t"
    proof cases
      case 1
      with Cons.IH obtain a t where
        "cs = a @ t" "list_all P a" "regex_test r t" by blast
      with pc have "c # cs = (c # a) @ t \<and> c # a \<noteq> [] \<and> list_all P (c # a) \<and> regex_test r t"
        by simp
      then show ?thesis by blast
    next
      case 2
      with pc have "c # cs = [c] @ cs \<and> [c] \<noteq> [] \<and> list_all P [c] \<and> regex_test r cs"
        by simp
      then show ?thesis by blast
    qed
  next
    assume "\<exists>a t. c # cs = a @ t \<and> a \<noteq> [] \<and> list_all P a \<and> regex_test r t"
    then obtain a t where
      split: "c # cs = a @ t" and ne: "a \<noteq> []" and all: "list_all P a" and rest: "regex_test r t"
      by blast
    from ne obtain a' where a: "a = c # a'" using split by (cases a) auto
    with split have cs: "cs = a' @ t" by simp
    from a all have pc: "P c" and all': "list_all P a'" by simp_all
    show "regex_test ((P, OneOrMore) # r) (c # cs)"
    proof (cases "a' = []")
      case True
      with cs rest pc show ?thesis by simp
    next
      case False
      with cs all' rest have "regex_test ((P, OneOrMore) # r) cs"
        using Cons.IH by blast
      with pc show ?thesis by simp
    qed
  qed
qed

lemma isValidEmail_shape: "isValidEmail s \<longleftrightarrow> email_shape s"
proof
  assume "isValidEmail s"
  then obtain a t1 where 1: "s = a @ t1" "a \<noteq> []" "list_all not_space_at a"
    and r1: "regex_test [((\<lambda>c. c = 0x40), Once), (not_space_at, OneOrMore),
                         ((\<lambda>c. c = 0x2E), Once), (not_space_at, OneOrMore)] t1"
    unfolding isValidEmail_def emailRegex_def regex_test_OneOrMore by blast
  from r1 obtain t2 where 2: "t1 = 0x40 # t2"
    and r2: "regex_test [(not_space_at, OneOrMore), ((\<lambda>c. c = 0x2E), Once),
                         (not_space_at, OneOrMore)] t2"
    unfolding regex_test_Once by blast
  from r2 obtain b t3 where 3: "t2 = b @ t3" "b \<noteq> []" "list_all not_space_at b"
    and r3: "regex_test [((\<lambda>c. c = 0x2E), Once), (not_space_at, OneOrMore)] t3"
    unfolding regex_test_OneOrMore by blast
  from r3 obtain t4 where 4: "t3 = 0x2E # t4"
    and r4: "regex_test [(not_space_at, OneOrMore)] t4"
    unfolding regex_test_Once by blast
  from r4 obtain c t5 where 5: "t4 = c @ t5" "c \<noteq> []" "list_all not_space_at c"
    and r5: "regex_test [] t5"
    unfolding regex_test_OneOrMore by blast
  from r5 have "t5 = []" by simp
  with 1 2 3 4 5 have "s = a @ [0x40] @ b @ [0x2E] @ c" by simp
  with 1 3 5 show "email_shape s" unfolding email_shape_def by blast
next
  assume "email_shape s"
  then obtain a b c where s: "s = a @ [0x40] @ b @ [0x2E] @ c"
    and ne: "a \<noteq> []" "b \<noteq> []" "c \<noteq> []"
    and ok: "list_all not_space_at a" "list_all not_space_at b" "list_all not_space_at c"
    unfolding email_shape_def by blast
  have r5: "regex_test [(not_space_at, OneOrMore)] c"
    unfolding regex_test_OneOrMore using ne ok by (intro exI [of _ c] exI [of _ "[]"]) simp
  then have r4: "regex_test [((\<lambda>c. c = 0x2E), Once), (not_space_at, OneOrMore)] (0x2E # c)"
    by simp
  have r3: "regex_test [(not_space_at, OneOrMore), ((\<lambda>c. c = 0x2E), Once),
                        (not_space_at, OneOrMore)] (b @ 0x2E # c)"
    unfolding regex_test_OneOrMore using ne ok r4
    by (intro exI [of _ b] exI [of _ "0x2E # c"]) simp
  then have r2: "regex_test [((\<lambda>c. c = 0x40), Once), (not_space_at, OneOrMore),
                        ((\<lambda>c. c = 0x2E), Once), (not_space_at, OneOrMore)] (0x40 # b @ 0x2E # c)"
    by simp
  have "regex_test emailRegex (a @ 0x40 # b @ 0x2E # c)"
    unfolding emailRegex_def regex_test_OneOrMore using ne ok r2
    by (intro exI [of _ a] exI [of _ "0x40 # b @ 0x2E # c"]) simp
  with s show "isValidEmail s" by (simp add: isValidEmail_def)
qed

lemma isValidEmail_examples:
  "isValidEmail (js ''a@b.co'')"
  "\<not> isValidEmail (js ''a@b'')"
  "\<not> isValidEmail (js ''a b@c.com'')"
  by (simp_all add: isValidEmail_def emailRegex_def js_def not_space_at_def is_whitespace_def)

section \<open>Reading back what \<open>JSON.stringify\<close> wrote\<close>

lemma digit_char:
  assumes "k < 10"
  shows "is_digit (0x30 + of_nat k)" and "digit_value (0x30 + of_nat k) = int k"
    and "(0x30 + of_nat k = (0x30 :: jschar)) \<longleftrightarrow> k = 0"
    and "0x30 + of_nat k \<noteq> (0x2D :: jschar)"
proof -
  from assms have "k \<in> {0, 1, 2, 3, 4, 5, 6, 7, 8, 9}" by auto
  then show "is_digit (0x30 + of_nat k)" and "digit_value (0x30 + of_nat k) = int k"
    and "(0x30 + of_nat k = (0x30 :: jschar)) \<longleftrightarrow> k = 0"
    and "0x30 + of_nat k \<noteq> (0x2D :: jschar)"
    by (auto simp: is_digit_def digit_value_def)
qed

lemma show_nat_digits: "list_all is_digit (show_nat n)"
proof (induction n rule: show_nat.induct)
  case (1 n)
  show ?case
  proof (cases "n < 10")
    case True
    then show ?thesis by (simp add: show_nat.simps [of n] digit_char)
  next
    case False
    with 1 show ?thesis by (simp add: show_nat.simps [of n] digit_char)
  qed
qed

lemma decimal_value_snoc: "decimal_value (ds @ [d]) = decimal_value ds * 10 + digit_value d"
  by (simp add: decimal_value_def)

lemma decimal_value_show_nat: "decimal_value (show_nat n) = int n"
proof (induction n rule: show_nat.induct)
  case (1 n)
  show ?case
  proof (cases "n < 10")
    case True
    then show ?thesis by (simp add: show_nat.simps [of n] digit_char decimal_value_def)
  next
    case False
    with 1 have "decimal_value (show_nat (n div 10)) = int (n div 10)" by simp
    with False show ?thesis
      by (simp add: show_nat.simps [of n] decimal_value_snoc digit_char) presburger
  qed
qed

lemma show_nat_zero: "show_nat 0 = [0x30]"
  by (simp add: show_nat.simps [of 0])

lemma show_nat_head:
  "n \<noteq> 0 \<Longrightarrow> \<exists>c cs. show_nat n = c # cs \<and> c \<noteq> 0x30 \<and> is_digit c \<and> list_all is_digit cs"
proof (induction n rule: show_nat.induct)
  case (1 n)
  show ?case
  proof (cases "n < 10")
    case True
    with 1(2) digit_char(3) [of n] show ?thesis
      by (simp add: show_nat.simps [of n] digit_char(1))
  next
    case False
    then have "n div 10 \<noteq> 0" by simp
    with 1(1) False obtain c cs where
      "show_nat (n div 10) = c # cs" "c \<noteq> 0x30" "is_digit c" "list_all is_digit cs" by blast
    with False show ?thesis by (simp add: show_nat.simps [of n] digit_char)
  qed
qed

lemma span_digits:
  assumes "list_all is_digit ds" and "\<not> is_digit t"
  shows "takeWhile is_digit (ds @ t # rest) = ds" and "dropWhile is_digit (ds @ t # rest) = t # rest"
  using assms by (induction ds) simp_all

lemma lex_int_part_show_nat:
  assumes "\<not> is_digit t"
  shows "lex_int_part (show_nat n @ t # rest) = Some (show_nat n, t # rest)"
proof (cases "n = 0")
  case True
  then show ?thesis by (simp add: show_nat_zero lex_int_part_def)
next
  case False
  then obtain c cs where "show_nat n = c # cs" "c \<noteq> 0x30" "is_digit c" "list_all is_digit cs"
    using show_nat_head by blast
  with assms show ?thesis by (simp add: lex_int_part_def span_digits)
qed

lemma lex_number_show_nat:
  assumes "ends_number t"
  shows "lex_number (show_nat n @ t # rest) = Some (NInt (int n), t # rest)"
proof -
  obtain c cs where s: "show_nat n = c # cs" and d: "is_digit c"
    using show_nat_head [of n] show_nat_zero by (cases "n = 0") (auto simp: is_digit_def)
  from d have "c \<noteq> 0x2D" by (auto simp: is_digit_def)
  moreover have "lex_int_part (c # cs @ t # rest) = Some (c # cs, t # rest)"
    using lex_int_part_show_nat [of t n rest] assms s by (simp add: ends_number_def)
  moreover have "decimal_value (c # cs) = int n"
    using decimal_value_show_nat [of n] s by simp
  ultimately show ?thesis
    using assms s by (simp add: lex_number_def lex_fraction_def lex_exponent_def ends_number_def)
qed

lemma lex_number_show_int:
  assumes "ends_number t"
  shows "lex_number (show_int i @ t # rest) = Some (NInt i, t # rest)"
proof (cases "i < 0")
  case True
  have "lex_int_part (show_nat (nat (- i)) @ t # rest) = Some (show_nat (nat (- i)), t # rest)"
    using lex_int_part_show_nat assms by (simp add: ends_number_def)
  with True assms show ?thesis
    by (simp add: show_int_def lex_number_def lex_fraction_def lex_exponent_def ends_number_def
          decimal_value_show_nat)
next
  case False
  with lex_number_show_nat [OF assms, of "nat i" rest] show ?thesis
    by (simp add: show_int_def)
qed

lemma show_int_head:
  "\<exists>c cs. show_int i = c # cs \<and> (c = 0x2D \<or> is_digit c)"
proof (cases "i < 0")
  case True
  then show ?thesis by (simp add: show_int_def)
next
  case False
  obtain c cs where "show_nat (nat i) = c # cs" "is_digit c"
    using show_nat_head [of "nat i"] show_nat_zero by (cases "nat i = 0") (auto simp: is_digit_def)
  with False show ?thesis by (simp add: show_int_def)
qed

lemma lex_show_int:
  assumes "ends_number t"
  shows "lex (show_int i @ t # rest) = map_option (Cons (TNumber (NInt i))) (lex (t # rest))"
proof -
  obtain c cs where s: "show_int i = c # cs" and c: "c = 0x2D \<or> is_digit c"
    using show_int_head by blast
  from c have "\<not> is_json_whitespace c" "punctuation c = None" "c \<noteq> 0x22"
    by (auto simp: is_json_whitespace_def punctuation_def is_digit_def)
  moreover have "lex_number (c # cs @ t # rest) = Some (NInt i, t # rest)"
    using lex_number_show_int [OF assms, of i rest] s by simp
  ultimately show ?thesis using s c by (simp add: next_token_def)
qed

lemma lex_stringify:
  "lex (JSON_stringify r) =
     Some [LBrace, TString (js ''count''), Colon, TNumber (NInt (count r)), Comma,
           TString (js ''timestamp''), Colon, TNumber (NInt (timestamp r)), RBrace]"
proof -
  have e1: "ends_number 0x2C" and e2: "ends_number 0x7D"
    by (simp_all add: ends_number_def is_digit_def)
  have tail: "lex [0x7D] = Some [RBrace]"
    by (simp add: is_json_whitespace_def next_token_def punctuation_def)
  have mid: "lex (0x2C # quoted (js ''timestamp'') @ [0x3A] @ show_int (timestamp r) @ [0x7D])
      = Some [Comma, TString (js ''timestamp''), Colon, TNumber (NInt (timestamp r)), RBrace]"
    using lex_show_int [OF e2, of "timestamp r" "[]"] tail
    by (simp add: quoted_def js_def is_json_whitespace_def next_token_def punctuation_def cons_fst_def)
  show ?thesis
    using lex_show_int [OF e1, of "count r"
        "quoted (js ''timestamp'') @ [0x3A] @ show_int (timestamp r) @ [0x7D]"] mid
    by (simp add: JSON_stringify_def quoted_def js_def is_json_whitespace_def next_token_def
          punctuation_def cons_fst_def)
qed

lemma JSON_parse_stringify: "JSON_parse (JSON_stringify r) = Inr (json_of_attempts r)"
  by (simp add: JSON_parse_def lex_stringify json_of_attempts_def)

lemma as_attempts_json_of: "as_attempts (json_of_attempts r) = Some r"
  by (simp add: json_of_attempts_def)

lemma JSON_stringify_nonempty: "JSON_stringify r \<noteq> []"
  by (simp add: JSON_stringify_def)

section \<open>Properties of the validator and of the stored record\<close>

lemma JSON_parse_error: "JSON_parse text = Inl e \<longleftrightarrow> JSON_parse text = Inl SyntaxError \<and> e = SyntaxError"
  by (auto simp: JSON_parse_def split: option.splits)

lemma validateForm_valid:
  "fst (validateForm cfg email password w) \<longleftrightarrow>
     (\<exists>e p. email = Some e \<and> e \<noteq> [] \<and> isValidEmail e
            \<and> password = Some p \<and> p \<noteq> [] \<and> minPasswordLength cfg \<le> int (length p))"
  by (auto simp: validateForm_def Let_def split: option.splits prod.splits if_splits)

lemma validateForm_eq:
  "validateForm cfg email password w
     = (email_errors email = [] \<and> password_errors cfg password = [],
        w\<lparr>trace := trace w @ email_errors email @ password_errors cfg password\<rparr>)"
  by (simp add: validateForm_def email_errors_def password_errors_def showFieldError_def emit_def
        split: option.splits)

lemma validateForm_frame:
  "\<exists>evs. snd (validateForm cfg email password w) = w\<lparr>trace := trace w @ evs\<rparr>
         \<and> list_all is_field_error evs"
proof -
  have "list_all is_field_error (email_errors email @ password_errors cfg password)"
    by (simp add: email_errors_def password_errors_def is_field_error_def split: option.splits)
  then show ?thesis by (auto simp: validateForm_eq)
qed

lemma validateForm_example:
  "validateForm CONFIG (Some (js ''a@b.com'')) (Some (js ''12345'')) w
     = (False, w\<lparr>trace := trace w @ [ShowFieldError (js ''password'')
                                       (js ''Password must be at least 6 characters'')]\<rparr>)"
proof -
  have "isValidEmail (js ''a@b.com'')"
    by (simp add: isValidEmail_def emailRegex_def js_def not_space_at_def is_whitespace_def)
  moreover have "js ''Password must be at least '' @ show_int 6 @ js '' characters''
      = js ''Password must be at least 6 characters''"
    by (simp add: show_int_def show_nat.simps js_def)
  moreover have "js ''a@b.com'' \<noteq> []" "js ''12345'' \<noteq> []" "length (js ''12345'') = 5"
    by (simp_all add: js_def)
  ultimately show ?thesis
    by (simp add: validateForm_def CONFIG_def showFieldError_def emit_def)
qed

section \<open>The paths of the handlers\<close>

lemma resetLoginAttempts_initialised:
  "isLocked w \<noteq> None \<Longrightarrow> resetLoginAttempts now w = Return () (reset_state now w)"
  by (auto simp add: resetLoginAttempts_def assign_isLocked_def reset_state_def)

lemma incrementLoginAttempts_initialised:
  "isLocked w \<noteq> None \<Longrightarrow> incrementLoginAttempts cfg now w = Return () (increment_state cfg now w)"
  by (auto simp add: incrementLoginAttempts_def assign_isLocked_def increment_state_def Let_def)

lemma isLocked_emit [simp]: "isLocked (emit ev w) = isLocked w"
  and localStorage_emit [simp]: "localStorage (emit ev w) = localStorage w"
  and loginAttempts_emit [simp]: "loginAttempts (emit ev w) = loginAttempts w"
  and loginForm_emit [simp]: "loginForm (emit ev w) = loginForm w"
  and trace_emit [simp]: "trace (emit ev w) = trace w @ [ev]"
  by (simp_all add: emit_def)

lemma login_catch_initialised:
  "isLocked w \<noteq> None \<Longrightarrow>
     login_catch cfg later (AuthError err) w = Return () (failure_state cfg later err w)"
  by (simp add: login_catch_def handleLoginError_def failure_state_def showMessage_def
        incrementLoginAttempts_initialised)

lemma handleLogin_locked:
  "isLocked w = Some True \<Longrightarrow>
     handleLogin cfg form persisted signedIn now later w
       = Return () (showLockoutMessage cfg now (emit PreventDefault w))"
  by (simp add: handleLogin_def)

lemma handleLogin_invalid:
  "isLocked w = Some False \<Longrightarrow> \<not> form_valid cfg form \<Longrightarrow>
     handleLogin cfg form persisted signedIn now later w
       = Return () (w\<lparr>trace := trace w @ [PreventDefault] @ email_errors (submitted_email form)
                                     @ password_errors cfg (password_field form)\<rparr>)"
  by (auto simp add: handleLogin_def validateForm_eq form_valid_def submitted_email_def emit_def)

lemma validateForm_valid_eq:
  "form_valid cfg form \<Longrightarrow>
     validateForm cfg (map_option trim (email_field form)) (password_field form) w = (True, w)"
  by (simp add: validateForm_eq form_valid_def submitted_email_def)

lemma handleLogin_persistence_rejected:
  "isLocked w = Some False \<Longrightarrow> form_valid cfg form \<Longrightarrow>
     handleLogin cfg form (Some err) signedIn now later w
       = Return () (setLoading False (js ''login-btn'')
                      (failure_state cfg later err (login_started form w)))"
  by (simp add: handleLogin_def validateForm_valid_eq submitted_email_def
        login_try_def try_catch_def try_finally_def login_catch_initialised login_started_def
        clearMessages_def setLoading_def Let_def)

lemma handleLogin_rejected:
  "isLocked w = Some False \<Longrightarrow> form_valid cfg form \<Longrightarrow>
     handleLogin cfg form None (Some err) now later w
       = Return () (setLoading False (js ''login-btn'')
                      (failure_state cfg later err (login_attempted form w)))"
  by (simp add: handleLogin_def validateForm_valid_eq submitted_email_def
        login_try_def try_catch_def try_finally_def login_catch_initialised login_started_def
        login_attempted_def clearMessages_def setLoading_def Let_def)

lemma handleLogin_accepted:
  "isLocked w = Some False \<Longrightarrow> form_valid cfg form \<Longrightarrow>
     handleLogin cfg form None None now later w
       = Return () (setLoading False (js ''login-btn'')
                      (emit (RedirectAfter (js ''logged.html'') 1500)
                         (showMessage (js ''Login successful! Redirecting...'') SuccessMsg
                            (reset_state later (login_attempted form w)))))"
  by (simp add: handleLogin_def validateForm_valid_eq submitted_email_def
        login_try_def try_catch_def try_finally_def login_started_def
        login_attempted_def clearMessages_def setLoading_def Let_def
        resetLoginAttempts_initialised)

lemma handleGoogleLogin_locked:
  "isLocked w = Some True \<Longrightarrow>
     handleGoogleLogin cfg signedIn now later w = Return () (showLockoutMessage cfg now w)"
  by (simp add: handleGoogleLogin_def)

lemma handleGoogleLogin_rejected:
  "isLocked w = Some False \<Longrightarrow>
     handleGoogleLogin cfg (Some err) now later w
       = Return () (setLoading False (js ''google-login-btn'')
                      (failure_state cfg later err (google_attempted w)))"
  by (simp add: handleGoogleLogin_def google_try_def try_catch_def try_finally_def
        login_catch_initialised google_attempted_def clearMessages_def setLoading_def Let_def)

lemma handleGoogleLogin_accepted:
  "isLocked w = Some False \<Longrightarrow>
     handleGoogleLogin cfg None now later w
       = Return () (setLoading False (js ''google-login-btn'')
                      (emit (RedirectAfter (js ''logged.html'') 1500)
                         (showMessage (js ''Google login successful! Redirecting...'') SuccessMsg
                            (reset_state later (google_attempted w)))))"
  by (simp add: handleGoogleLogin_def google_try_def try_catch_def try_finally_def
        google_attempted_def clearMessages_def setLoading_def Let_def
        resetLoginAttempts_initialised)

section \<open>What the tracker and the helpers change\<close>

lemma showLockoutMessage_fields [simp]:
  "localStorage (showLockoutMessage cfg now w) = localStorage w"
  "loginAttempts (showLockoutMessage cfg now w) = loginAttempts w"
  "isLocked (showLockoutMessage cfg now w) = isLocked w"
  "loginForm (showLockoutMessage cfg now w) = loginForm w"
  by (simp_all add: showLockoutMessage_def showMessage_def Let_def)

lemma showLockoutMessage_trace:
  "trace (showLockoutMessage cfg now w)
     = trace w @ ShowMessage (lockoutMessage (remainingTime cfg now w)) ErrorMsg
         # (if loginForm w then [DisableFormInputs] else [])"
  by (simp add: showLockoutMessage_def showMessage_def Let_def)

lemma helper_fields [simp]:
  "localStorage (showMessage m k w) = localStorage w"
  "loginAttempts (showMessage m k w) = loginAttempts w"
  "isLocked (showMessage m k w) = isLocked w"
  "loginForm (showMessage m k w) = loginForm w"
  "trace (showMessage m k w) = trace w @ [ShowMessage m k]"
  "localStorage (setLoading v b w) = localStorage w"
  "loginAttempts (setLoading v b w) = loginAttempts w"
  "isLocked (setLoading v b w) = isLocked w"
  "loginForm (setLoading v b w) = loginForm w"
  "trace (setLoading v b w) = trace w @ [SetLoading v b]"
  "localStorage (clearMessages w) = localStorage w"
  "loginAttempts (clearMessages w) = loginAttempts w"
  "isLocked (clearMessages w) = isLocked w"
  "loginForm (clearMessages w) = loginForm w"
  "trace (clearMessages w) = trace w @ [ClearMessages]"
  by (simp_all add: showMessage_def setLoading_def clearMessages_def)

lemma reset_state_fields [simp]:
  "localStorage (reset_state now w) = None"
  "loginAttempts (reset_state now w) = \<lparr>count = 0, timestamp = now\<rparr>"
  "isLocked (reset_state now w) = Some False"
  "loginForm (reset_state now w) = loginForm w"
  "trace (reset_state now w) = trace w"
  by (simp_all add: reset_state_def)

lemma increment_state_fields:
  assumes "enableRateLimiting cfg"
  shows "loginAttempts (increment_state cfg now w)
           = \<lparr>count = count (loginAttempts w) + 1, timestamp = now\<rparr>"
    and "localStorage (increment_state cfg now w)
           = Some (JSON_stringify \<lparr>count = count (loginAttempts w) + 1, timestamp = now\<rparr>)"
    and "isLocked (increment_state cfg now w)
           = (if maxLoginAttempts cfg \<le> count (loginAttempts w) + 1 then Some True else isLocked w)"
    and "loginForm (increment_state cfg now w) = loginForm w"
  using assms by (simp_all add: increment_state_def Let_def)

lemma increment_state_disabled: "\<not> enableRateLimiting cfg \<Longrightarrow> increment_state cfg now w = w"
  by (simp add: increment_state_def)

lemma increment_state_trace:
  "\<exists>evs. trace (increment_state cfg now w) = trace w @ evs"
  by (simp add: increment_state_def Let_def showLockoutMessage_trace)

lemma failure_state_fields:
  assumes "enableRateLimiting cfg"
  shows "loginAttempts (failure_state cfg now err w)
           = \<lparr>count = count (loginAttempts w) + 1, timestamp = now\<rparr>"
    and "localStorage (failure_state cfg now err w)
           = Some (JSON_stringify \<lparr>count = count (loginAttempts w) + 1, timestamp = now\<rparr>)"
    and "isLocked (failure_state cfg now err w)
           = (if maxLoginAttempts cfg \<le> count (loginAttempts w) + 1 then Some True else isLocked w)"
    and "loginForm (failure_state cfg now err w) = loginForm w"
  using assms by (simp_all add: failure_state_def increment_state_fields)

lemma failure_state_trace:
  "\<exists>evs. trace (failure_state cfg now err w) = trace w @ evs"
  using increment_state_trace
    [of cfg now "showMessage (login_error_message err) ErrorMsg (emit (ConsoleError (AuthError err)) w)"]
  by (auto simp: failure_state_def)

lemma started_fields [simp]:
  "localStorage (login_started form w) = localStorage w"
  "loginAttempts (login_started form w) = loginAttempts w"
  "isLocked (login_started form w) = isLocked w"
  "loginForm (login_started form w) = loginForm w"
  "localStorage (login_attempted form w) = localStorage w"
  "loginAttempts (login_attempted form w) = loginAttempts w"
  "isLocked (login_attempted form w) = isLocked w"
  "loginForm (login_attempted form w) = loginForm w"
  "localStorage (google_attempted w) = localStorage w"
  "loginAttempts (google_attempted w) = loginAttempts w"
  "isLocked (google_attempted w) = isLocked w"
  "loginForm (google_attempted w) = loginForm w"
  by (simp_all add: login_started_def login_attempted_def google_attempted_def)

lemma started_trace:
  "trace (login_started form w)
     = trace w @ [PreventDefault, SetLoading True (js ''login-btn''), ClearMessages,
                  SetPersistence (if remember_field form = Some (js ''on'')
                                  then browserLocalPersistence else browserSessionPersistence)]"
  "trace (login_attempted form w)
     = trace (login_started form w)
         @ [SignInWithEmailAndPassword (submitted_email form) (password_field form)]"
  "trace (google_attempted w)
     = trace w @ [SetLoading True (js ''google-login-btn''), ClearMessages,
                  SignInWithPopup [js ''email'', js ''profile'']]"
  by (simp_all add: login_started_def login_attempted_def google_attempted_def)

lemma checkLockout_disabled: "\<not> enableRateLimiting cfg \<Longrightarrow> checkLockout cfg now w = Return False w"
  by (simp add: checkLockout_def)

lemma getLoginAttempts_stored:
  "getLoginAttempts now (Some (JSON_stringify r)) = Inr (json_of_attempts r)"
  by (simp add: getLoginAttempts_def JSON_parse_stringify JSON_stringify_nonempty)

lemma checkLockout_stored:
  assumes "enableRateLimiting cfg" and "localStorage w = Some (JSON_stringify r)"
  shows "checkLockout cfg now w =
           (if maxLoginAttempts cfg \<le> count r
            then if now - timestamp r < lockoutDuration cfg then Return True w
                 else (case resetLoginAttempts now w of
                         Return _ w1 \<Rightarrow> Return False w1
                       | Throw e w1 \<Rightarrow> Throw e w1
                       | Unmodelled \<Rightarrow> Unmodelled)
            else Return False w)"
  using assms by (simp add: checkLockout_def getLoginAttempts_stored as_attempts_json_of Let_def)

lemma checkLockout_loaded:
  assumes "enableRateLimiting cfg" and "localStorage w = Some (JSON_stringify r)"
    and "isLocked w \<noteq> None"
  shows "checkLockout cfg now w =
           (if maxLoginAttempts cfg \<le> count r \<and> now - timestamp r < lockoutDuration cfg
              then Return True w
            else if maxLoginAttempts cfg \<le> count r then Return False (reset_state now w)
            else Return False w)"
  using assms by (simp add: checkLockout_stored resetLoginAttempts_initialised)

lemma checkLockout_absent:
  assumes "enableRateLimiting cfg" and "localStorage w = None \<or> localStorage w = Some []"
  shows "checkLockout cfg now w =
           (if maxLoginAttempts cfg \<le> 0
            then if 0 < lockoutDuration cfg then Return True w
                 else (case resetLoginAttempts now w of
                         Return _ w1 \<Rightarrow> Return False w1
                       | Throw e w1 \<Rightarrow> Throw e w1
                       | Unmodelled \<Rightarrow> Unmodelled)
            else Return False w)"
  using assms by (auto simp add: checkLockout_def getLoginAttempts_def as_attempts_json_of Let_def)

lemma module_load_absent:
  "module_load CONFIG now form None
     = Loaded \<lparr>localStorage = None, loginAttempts = \<lparr>count = 0, timestamp = now\<rparr>,
               isLocked = Some False, loginForm = form, trace = []\<rparr>"
  by (simp add: module_load_def getLoginAttempts_def as_attempts_json_of checkLockout_absent CONFIG_def)

lemma iterate_counts:
  assumes step: "\<And>t w. isLocked w = Some False \<Longrightarrow>
      \<exists>w'. f t w = Return () w'
        \<and> loginAttempts w' = \<lparr>count = count (loginAttempts w) + 1, timestamp = t\<rparr>
        \<and> localStorage w' = Some (JSON_stringify (loginAttempts w'))
        \<and> isLocked w' = Some (m \<le> count (loginAttempts w) + 1)
        \<and> loginForm w' = loginForm w"
    and "isLocked w = Some False" and "ts \<noteq> []"
    and "count (loginAttempts w) + int (length ts) \<le> m"
  shows "\<exists>w'. iterate f ts w = Return () w'
        \<and> loginAttempts w' = \<lparr>count = count (loginAttempts w) + int (length ts), timestamp = last ts\<rparr>
        \<and> localStorage w' = Some (JSON_stringify (loginAttempts w'))
        \<and> isLocked w' = Some (m \<le> count (loginAttempts w) + int (length ts))
        \<and> loginForm w' = loginForm w"
  using assms(2-)
proof (induction ts arbitrary: w)
  case Nil
  then show ?case by simp
next
  case (Cons t ts)
  from step [OF Cons.prems(1), of t] obtain w1 where
    1: "f t w = Return () w1"
      "loginAttempts w1 = \<lparr>count = count (loginAttempts w) + 1, timestamp = t\<rparr>"
      "localStorage w1 = Some (JSON_stringify (loginAttempts w1))"
      "isLocked w1 = Some (m \<le> count (loginAttempts w) + 1)"
      "loginForm w1 = loginForm w"
    by blast
  show ?case
  proof (cases "ts = []")
    case True
    with 1 show ?thesis by simp
  next
    case False
    with Cons.prems(3) have "\<not> m \<le> count (loginAttempts w) + 1" by (cases ts) auto
    with 1 have u: "isLocked w1 = Some False" by simp
    from Cons.prems(3) 1 have "count (loginAttempts w1) + int (length ts) \<le> m" by simp
    from Cons.IH [OF u False this] obtain w' where
      "iterate f ts w1 = Return () w'"
      "loginAttempts w' = \<lparr>count = count (loginAttempts w1) + int (length ts), timestamp = last ts\<rparr>"
      "localStorage w' = Some (JSON_stringify (loginAttempts w'))"
      "isLocked w' = Some (m \<le> count (loginAttempts w1) + int (length ts))"
      "loginForm w' = loginForm w1"
      by blast
    with 1 False show ?thesis by (simp add: algebra_simps)
  qed
qed

lemma incrementLoginAttempts_step:
  assumes "enableRateLimiting cfg" and "isLocked w = Some False"
  shows "\<exists>w'. incrementLoginAttempts cfg t w = Return () w'
        \<and> loginAttempts w' = \<lparr>count = count (loginAttempts w) + 1, timestamp = t\<rparr>
        \<and> localStorage w' = Some (JSON_stringify (loginAttempts w'))
        \<and> isLocked w' = Some (maxLoginAttempts cfg \<le> count (loginAttempts w) + 1)
        \<and> loginForm w' = loginForm w"
  using assms by (simp add: incrementLoginAttempts_initialised increment_state_fields)

lemma handleLogin_step:
  assumes "enableRateLimiting cfg" and "form_valid cfg form" and "isLocked w = Some False"
  shows "\<exists>w'. handleLogin cfg form None (Some err) t t w = Return () w'
        \<and> loginAttempts w' = \<lparr>count = count (loginAttempts w) + 1, timestamp = t\<rparr>
        \<and> localStorage w' = Some (JSON_stringify (loginAttempts w'))
        \<and> isLocked w' = Some (maxLoginAttempts cfg \<le> count (loginAttempts w) + 1)
        \<and> loginForm w' = loginForm w"
  using assms by (simp add: handleLogin_rejected failure_state_fields)

lemma handleGoogleLogin_step:
  assumes "enableRateLimiting cfg" and "isLocked w = Some False"
  shows "\<exists>w'. handleGoogleLogin cfg (Some err) t t w = Return () w'
        \<and> loginAttempts w' = \<lparr>count = count (loginAttempts w) + 1, timestamp = t\<rparr>
        \<and> localStorage w' = Some (JSON_stringify (loginAttempts w'))
        \<and> isLocked w' = Some (maxLoginAttempts cfg \<le> count (loginAttempts w) + 1)
        \<and> loginForm w' = loginForm w"
  using assms by (simp add: handleGoogleLogin_rejected failure_state_fields)

lemma loading_after_snoc [simp]:
  "loading_after b s (evs @ [SetLoading v b]) = v"
  by (induction b s evs rule: loading_after.induct) simp_all

lemma good_form_valid: "form_valid CONFIG good_form"
proof -
  have "trim (js ''a@b.co'') = js ''a@b.co''"
    by (simp add: trim_def js_def is_whitespace_def)
  moreover have "isValidEmail (js ''a@b.co'')"
    by (simp add: isValidEmail_examples)
  moreover have "js ''a@b.co'' \<noteq> []" "js ''secret1'' \<noteq> []" "length (js ''secret1'') = 7"
    by (simp_all add: js_def)
  ultimately show ?thesis
    by (simp add: form_valid_def good_form_def submitted_email_def email_errors_def
          password_errors_def CONFIG_def)
qed

lemma bad_form_invalid: "\<not> form_valid CONFIG bad_form"
proof -
  have "trim (js ''a@b'') = js ''a@b''"
    by (simp add: trim_def js_def is_whitespace_def)
  moreover have "\<not> isValidEmail (js ''a@b'')"
    by (simp add: isValidEmail_examples)
  moreover have "js ''a@b'' \<noteq> []"
    by (simp_all add: js_def)
  ultimately show ?thesis
    by (simp add: form_valid_def bad_form_def submitted_email_def email_errors_def)
qed

lemma field_errors_no_provider:
  "list_all is_field_error evs \<Longrightarrow> \<not> list_ex is_provider_call evs"
  by (induction evs) (auto simp: is_field_error_def is_provider_call_def split: event.splits)

lemma field_errors_no_loading:
  "list_all is_field_error evs \<Longrightarrow> SetLoading v b \<notin> set evs"
  by (induction evs) (auto simp: is_field_error_def)

lemma validateForm_fst_iff:
  "fst (validateForm cfg (map_option trim (email_field form)) (password_field form) w)
     \<longleftrightarrow> form_valid cfg form"
  by (simp add: validateForm_eq form_valid_def submitted_email_def)

lemma form_errors:
  "list_all is_field_error (email_errors e @ password_errors cfg p)"
  by (simp add: email_errors_def password_errors_def is_field_error_def split: option.splits)

lemma stored_example:
  "JSON_stringify \<lparr>count = 5, timestamp = 0\<rparr>
     = [0x7B] @ quoted (js ''count'') @ js '':5,'' @ quoted (js ''timestamp'') @ js '':0}''"
  by (simp add: JSON_stringify_def show_int_def show_nat.simps js_def quoted_def)

section \<open>The claims\<close>

text \<open>
  Claim C6. For every string \<open>s\<close>, \<open>isValidEmail s\<close> is true exactly when \<open>s\<close> is one or
  more characters that are neither whitespace nor \<open>@\<close>, then \<open>@\<close>, one or more such
  characters, a dot, and one or more such characters. In particular \<open>a@b.co\<close> is valid, and
  \<open>a@b\<close> and \<open>a b@c.com\<close> are not.
\<close>

theorem isValidEmail_spec:
  "(isValidEmail s \<longleftrightarrow> email_shape s)
   \<and> isValidEmail (js ''a@b.co'')
   \<and> \<not> isValidEmail (js ''a@b'')
   \<and> \<not> isValidEmail (js ''a b@c.com'')"
  using isValidEmail_shape [of s] isValidEmail_examples by blast

text \<open>
  Claim C7. Each of the eight known provider codes is translated to its fixed sentence,
  whatever the fallback message is; a code outside the set (or no code at all) gives the
  fallback message when there is a non-empty one, and the generic sentence otherwise.
  \<open>handleLoginError\<close> returns on every provider error, having logged it and shown the
  translation as an error message.
\<close>

theorem login_error_message_table:
  "login_error_message \<lparr>code = Some (js ''auth/user-not-found''), message = m\<rparr>
     = js ''No account found with this email address.''
   \<and> login_error_message \<lparr>code = Some (js ''auth/wrong-password''), message = m\<rparr>
     = js ''Incorrect password. Please try again.''
   \<and> login_error_message \<lparr>code = Some (js ''auth/invalid-email''), message = m\<rparr>
     = js ''Please enter a valid email address.''
   \<and> login_error_message \<lparr>code = Some (js ''auth/user-disabled''), message = m\<rparr>
     = js ''This account has been disabled. Please contact support.''
   \<and> login_error_message \<lparr>code = Some (js ''auth/too-many-requests''), message = m\<rparr>
     = js ''Too many failed attempts. Please try again later.''
   \<and> login_error_message \<lparr>code = Some (js ''auth/network-request-failed''), message = m\<rparr>
     = js ''Network error. Please check your connection and try again.''
   \<and> login_error_message \<lparr>code = Some (js ''auth/popup-closed-by-user''), message = m\<rparr>
     = js ''Sign-in was cancelled. Please try again.''
   \<and> login_error_message \<lparr>code = Some (js ''auth/popup-blocked''), message = m\<rparr>
     = js ''Pop-up was blocked. Please allow pop-ups and try again.''
   \<and> (c \<notin> Some ` set known_codes \<longrightarrow>
        login_error_message \<lparr>code = c, message = m\<rparr>
          = (case m of
               None \<Rightarrow> js ''An unexpected error occurred. Please try again.''
             | Some t \<Rightarrow> if t = [] then js ''An unexpected error occurred. Please try again.'' else t))
   \<and> handleLoginError (AuthError err) w
        = Return () (w\<lparr>trace := trace w @ [ConsoleError (AuthError err),
                                             ShowMessage (login_error_message err) ErrorMsg]\<rparr>)"
proof -
  have known: "login_error_message \<lparr>code = Some (js ''auth/user-not-found''), message = m\<rparr>
     = js ''No account found with this email address.''"
    "login_error_message \<lparr>code = Some (js ''auth/wrong-password''), message = m\<rparr>
     = js ''Incorrect password. Please try again.''"
    "login_error_message \<lparr>code = Some (js ''auth/invalid-email''), message = m\<rparr>
     = js ''Please enter a valid email address.''"
    "login_error_message \<lparr>code = Some (js ''auth/user-disabled''), message = m\<rparr>
     = js ''This account has been disabled. Please contact support.''"
    "login_error_message \<lparr>code = Some (js ''auth/too-many-requests''), message = m\<rparr>
     = js ''Too many failed attempts. Please try again later.''"
    "login_error_message \<lparr>code = Some (js ''auth/network-request-failed''), message = m\<rparr>
     = js ''Network error. Please check your connection and try again.''"
    "login_error_message \<lparr>code = Some (js ''auth/popup-closed-by-user''), message = m\<rparr>
     = js ''Sign-in was cancelled. Please try again.''"
    "login_error_message \<lparr>code = Some (js ''auth/popup-blocked''), message = m\<rparr>
     = js ''Pop-up was blocked. Please allow pop-ups and try again.''"
    by (simp_all add: login_error_message_def js_def)
  have unknown: "c \<notin> Some ` set known_codes \<longrightarrow>
        login_error_message \<lparr>code = c, message = m\<rparr>
          = (case m of
               None \<Rightarrow> js ''An unexpected error occurred. Please try again.''
             | Some t \<Rightarrow> if t = [] then js ''An unexpected error occurred. Please try again.'' else t)"
    by (auto simp: login_error_message_def known_codes_def)
  have shown: "handleLoginError (AuthError err) w
        = Return () (w\<lparr>trace := trace w @ [ConsoleError (AuthError err),
                                             ShowMessage (login_error_message err) ErrorMsg]\<rparr>)"
    by (simp add: handleLoginError_def showMessage_def emit_def)
  from known unknown shown show ?thesis by blast
qed

theorem login_error_message_table_witness:
  "js ''auth/unknown-code-xyz'' \<notin> set known_codes
   \<and> login_error_message \<lparr>code = Some (js ''auth/unknown-code-xyz''), message = Some (js ''oops'')\<rparr>
       = js ''oops''
   \<and> login_error_message \<lparr>code = Some (js ''auth/wrong-password''), message = Some (js ''oops'')\<rparr>
       = js ''Incorrect password. Please try again.''"
proof -
  have out: "js ''auth/unknown-code-xyz'' \<notin> set known_codes"
    by (simp add: known_codes_def js_def)
  then have "Some (js ''auth/unknown-code-xyz'') \<notin> Some ` set known_codes" by blast
  with login_error_message_table [of "Some (js ''oops'')" "Some (js ''auth/unknown-code-xyz'')"]
  have "login_error_message \<lparr>code = Some (js ''auth/unknown-code-xyz''), message = Some (js ''oops'')\<rparr>
       = js ''oops''" by (simp add: js_def)
  moreover from login_error_message_table [of "Some (js ''oops'')"]
  have "login_error_message \<lparr>code = Some (js ''auth/wrong-password''), message = Some (js ''oops'')\<rparr>
       = js ''Incorrect password. Please try again.''" by blast
  ultimately show ?thesis using out by blast
qed

text \<open>
  Claim C5. \<open>validateForm\<close> reports the form valid exactly when the email is present,
  not empty and accepted by \<open>isValidEmail\<close>, and the password is present, not empty and at
  least as long as the configured minimum, which is 6 in \<open>CONFIG\<close>. On \<open>a@b.com\<close> and
  \<open>12345\<close> it renders the password-length error and nothing else. Whatever its arguments,
  it changes nothing of the state but the rendered field errors: the storage, the attempt
  record and the lock stay as they were, and no call to the provider is made.
\<close>

theorem validateForm_spec:
  "(fst (validateForm cfg email password w) \<longleftrightarrow>
      (\<exists>e p. email = Some e \<and> e \<noteq> [] \<and> isValidEmail e
             \<and> password = Some p \<and> p \<noteq> [] \<and> minPasswordLength cfg \<le> int (length p)))
   \<and> (fst (validateForm CONFIG (Some e) (Some p) w) \<longleftrightarrow>
        e \<noteq> [] \<and> isValidEmail e \<and> p \<noteq> [] \<and> 6 \<le> length p)
   \<and> validateForm CONFIG (Some (js ''a@b.com'')) (Some (js ''12345'')) w
        = (False, w\<lparr>trace := trace w @ [ShowFieldError (js ''password'')
                                          (js ''Password must be at least 6 characters'')]\<rparr>)
   \<and> (\<exists>evs. snd (validateForm cfg email password w) = w\<lparr>trace := trace w @ evs\<rparr>
            \<and> list_all is_field_error evs)"
proof -
  have "fst (validateForm CONFIG (Some e) (Some p) w) \<longleftrightarrow>
        e \<noteq> [] \<and> isValidEmail e \<and> p \<noteq> [] \<and> 6 \<le> length p"
    by (simp add: validateForm_valid CONFIG_def)
  then show ?thesis
    using validateForm_valid [of cfg email password w] validateForm_frame [of cfg email password w]
      validateForm_example [of w]
    by blast
qed

text \<open>
  Claim C1, as stated, fails: on a stored string that is not JSON, \<open>JSON.parse\<close> throws and
  \<open>getLoginAttempts\<close> does not catch the \<open>SyntaxError\<close>. With \<open>not json\<close> under the key the
  call throws, and so does the load of the module, which leaves the string where it is.
\<close>

theorem getLoginAttempts_malformed:
  "getLoginAttempts 1000 (Some (js ''not json'')) = Inl SyntaxError
   \<and> module_load CONFIG 1000 True (Some (js ''not json''))
       = LoadFailed SyntaxError (Some (js ''not json''))"
proof -
  have "JSON_parse (js ''not json'') = Inl SyntaxError"
    by (simp add: JSON_parse_def js_def is_json_whitespace_def next_token_def punctuation_def
          is_digit_def keyword_def)
  moreover have "js ''not json'' \<noteq> []" by (simp add: js_def)
  ultimately show ?thesis by (simp add: getLoginAttempts_def module_load_def)
qed

text \<open>
  Claim C1, amended. \<open>getLoginAttempts\<close> returns \<open>{count: 0, timestamp: now}\<close> when the key
  is missing or holds the empty string. On any other stored string it returns what
  \<open>JSON.parse\<close> returns, in particular the record that \<open>JSON.stringify\<close> wrote; it throws,
  with a \<open>SyntaxError\<close>, exactly when the stored string is not empty and is not JSON.
\<close>

theorem getLoginAttempts_amended:
  "getLoginAttempts now None = Inr (json_of_attempts \<lparr>count = 0, timestamp = now\<rparr>)
   \<and> getLoginAttempts now (Some []) = Inr (json_of_attempts \<lparr>count = 0, timestamp = now\<rparr>)
   \<and> getLoginAttempts now (Some (JSON_stringify r)) = Inr (json_of_attempts r)
   \<and> (payload \<noteq> [] \<longrightarrow> getLoginAttempts now (Some payload) = JSON_parse payload)
   \<and> (getLoginAttempts now (Some payload) = Inl e \<longleftrightarrow>
        payload \<noteq> [] \<and> JSON_parse payload = Inl SyntaxError \<and> e = SyntaxError)"
  using JSON_parse_error [of payload e]
  by (auto simp: getLoginAttempts_def JSON_parse_stringify JSON_stringify_nonempty)

theorem getLoginAttempts_amended_witness:
  "js ''[1,2'' \<noteq> [] \<and> getLoginAttempts 1000 (Some (js ''[1,2'')) = Inl SyntaxError
   \<and> getLoginAttempts 1000 (Some (js ''[1,2]''))
       = Inr (JArr [JNum (NInt 1), JNum (NInt 2)])"
proof -
  have 1: "JSON_parse (js ''[1,2'') = Inl SyntaxError"
    by (simp add: JSON_parse_def js_def is_json_whitespace_def next_token_def punctuation_def
          is_digit_def lex_number_def lex_int_part_def lex_fraction_def lex_exponent_def
          decimal_value_def digit_value_def)
  have 2: "JSON_parse (js ''[1,2]'') = Inr (JArr [JNum (NInt 1), JNum (NInt 2)])"
    by (simp add: JSON_parse_def js_def is_json_whitespace_def next_token_def punctuation_def
          is_digit_def lex_number_def lex_int_part_def lex_fraction_def lex_exponent_def
          decimal_value_def digit_value_def)
  have 3: "js ''[1,2'' \<noteq> []" "js ''[1,2]'' \<noteq> []" by (simp_all add: js_def)
  from getLoginAttempts_amended [of 1000 _ "js ''[1,2''" SyntaxError] 1 3
  have "getLoginAttempts 1000 (Some (js ''[1,2'')) = Inl SyntaxError" by simp
  moreover from getLoginAttempts_amended [of 1000 _ "js ''[1,2]''"] 2 3
  have "getLoginAttempts 1000 (Some (js ''[1,2]'')) = Inr (JArr [JNum (NInt 1), JNum (NInt 2)])"
    by simp
  ultimately show ?thesis using 3 by blast
qed

text \<open>
  Claim C8. A submission that passes the lockout check and whose validation fails ends after
  the field errors are rendered: the handler returns, the only calls it made are
  \<open>preventDefault\<close> and at least one field-error rendering, none of them a call to the
  provider, and the stored item, the attempt record and the lock are unchanged.
\<close>

theorem handleLogin_validation_aborts:
  assumes unlocked: "isLocked w = Some False"
    and invalid: "\<not> fst (validateForm cfg (map_option trim (email_field form)) (password_field form)
                        (emit PreventDefault w))"
  shows "\<exists>w' evs. handleLogin cfg form persisted signedIn now later w = Return () w'
      \<and> localStorage w' = localStorage w \<and> loginAttempts w' = loginAttempts w
      \<and> isLocked w' = isLocked w
      \<and> trace w' = trace w @ PreventDefault # evs
      \<and> evs \<noteq> [] \<and> list_all is_field_error evs
      \<and> \<not> list_ex is_provider_call (PreventDefault # evs)"
proof -
  let ?evs = "email_errors (submitted_email form) @ password_errors cfg (password_field form)"
  from invalid have nv: "\<not> form_valid cfg form" by (simp add: validateForm_fst_iff)
  then have ne: "?evs \<noteq> []" by (auto simp: form_valid_def)
  have fe: "list_all is_field_error ?evs" by (rule form_errors)
  then have "\<not> list_ex is_provider_call (PreventDefault # ?evs)"
    using field_errors_no_provider [of ?evs] by (simp add: is_provider_call_def)
  with ne fe show ?thesis
    by (simp add: handleLogin_invalid [OF unlocked nv])
qed

theorem handleLogin_validation_aborts_witness:
  "isLocked fresh = Some False
   \<and> \<not> fst (validateForm CONFIG (map_option trim (email_field bad_form)) (password_field bad_form)
              (emit PreventDefault fresh))
   \<and> (\<exists>w' evs. handleLogin CONFIG bad_form None None 0 1 fresh = Return () w'
      \<and> localStorage w' = localStorage fresh \<and> loginAttempts w' = loginAttempts fresh
      \<and> isLocked w' = isLocked fresh
      \<and> trace w' = trace fresh @ PreventDefault # evs
      \<and> evs \<noteq> [] \<and> list_all is_field_error evs
      \<and> \<not> list_ex is_provider_call (PreventDefault # evs))"
proof -
  have 1: "isLocked fresh = Some False" by (simp add: fresh_def)
  have 2: "\<not> fst (validateForm CONFIG (map_option trim (email_field bad_form))
                     (password_field bad_form) (emit PreventDefault fresh))"
    using bad_form_invalid by (simp add: validateForm_fst_iff)
  from handleLogin_validation_aborts [OF 1 2] 1 2 show ?thesis by blast
qed

text \<open>
  Claim C9. Whenever \<open>handleLogin\<close> sets the loading indicator of the login button, its
  last call before it completes clears it, whether the provider accepted the credentials
  or rejected either call with any error: the handler returns with the indicator off.
\<close>

theorem handleLogin_clears_loading:
  assumes "isLocked w \<noteq> None"
  shows "\<exists>w' evs. handleLogin cfg form persisted signedIn now later w = Return () w'
      \<and> trace w' = trace w @ evs
      \<and> (SetLoading True (js ''login-btn'') \<in> set evs \<longrightarrow>
           last evs = SetLoading False (js ''login-btn'')
           \<and> \<not> loading_after (js ''login-btn'') s evs)"
proof -
  let ?b = "js ''login-btn''"
  from assms obtain locked where "isLocked w = Some locked" by auto
  then consider (locked) "isLocked w = Some True"
    | (invalid) "isLocked w = Some False" "\<not> form_valid cfg form"
    | (valid) "isLocked w = Some False" "form_valid cfg form"
    by (cases locked) auto
  then show ?thesis
  proof cases
    case locked
    then show ?thesis
      by (simp add: handleLogin_locked showLockoutMessage_trace)
  next
    case invalid
    have "SetLoading True ?b \<notin> set (email_errors (submitted_email form)
            @ password_errors cfg (password_field form))"
      by (rule field_errors_no_loading [OF form_errors])
    then show ?thesis
      by (simp add: handleLogin_invalid [OF invalid])
  next
    case valid
    have "\<exists>w1 evs1. handleLogin cfg form persisted signedIn now later w
            = Return () (setLoading False ?b w1) \<and> trace w1 = trace w @ evs1"
    proof (cases persisted)
      case (Some err)
      obtain evs where "trace (failure_state cfg later err (login_started form w))
          = trace (login_started form w) @ evs"
        using failure_state_trace by blast
      with Some show ?thesis
        by (simp add: handleLogin_persistence_rejected [OF valid] started_trace) blast
    next
      case None
      show ?thesis
      proof (cases signedIn)
        case (Some err)
        obtain evs where "trace (failure_state cfg later err (login_attempted form w))
            = trace (login_attempted form w) @ evs"
          using failure_state_trace by blast
        with None Some show ?thesis
          by (simp add: handleLogin_rejected [OF valid] started_trace) blast
      next
        case accepted: None
        let ?w1 = "emit (RedirectAfter (js ''logged.html'') 1500)
                     (showMessage (js ''Login successful! Redirecting...'') SuccessMsg
                        (reset_state later (login_attempted form w)))"
        have "\<exists>evs1. trace ?w1 = trace w @ evs1"
          by (simp add: started_trace)
        moreover have "handleLogin cfg form persisted signedIn now later w
            = Return () (setLoading False ?b ?w1)"
          using None accepted by (simp add: handleLogin_accepted [OF valid])
        ultimately show ?thesis by blast
      qed
    qed
    then obtain w1 evs1 where
      "handleLogin cfg form persisted signedIn now later w = Return () (setLoading False ?b w1)"
      "trace w1 = trace w @ evs1"
      by blast
    then have "handleLogin cfg form persisted signedIn now later w = Return () (setLoading False ?b w1)
        \<and> trace (setLoading False ?b w1) = trace w @ (evs1 @ [SetLoading False ?b])
        \<and> last (evs1 @ [SetLoading False ?b]) = SetLoading False ?b
        \<and> \<not> loading_after ?b s (evs1 @ [SetLoading False ?b])"
      by simp
    then show ?thesis by blast
  qed
qed

theorem handleLogin_clears_loading_witness:
  "isLocked fresh \<noteq> None
   \<and> (\<exists>w' evs. handleLogin CONFIG good_form None (Some wrong_password) 0 1 fresh = Return () w'
      \<and> trace w' = trace fresh @ evs
      \<and> SetLoading True (js ''login-btn'') \<in> set evs
      \<and> last evs = SetLoading False (js ''login-btn'')
      \<and> \<not> loading_after (js ''login-btn'') True evs)"
proof -
  have 1: "isLocked fresh \<noteq> None" and u: "isLocked fresh = Some False" by (simp_all add: fresh_def)
  from handleLogin_clears_loading [OF 1, of CONFIG good_form None "Some wrong_password" 0 1 True]
  obtain w' evs where r: "handleLogin CONFIG good_form None (Some wrong_password) 0 1 fresh = Return () w'"
      "trace w' = trace fresh @ evs"
      "SetLoading True (js ''login-btn'') \<in> set evs \<longrightarrow>
           last evs = SetLoading False (js ''login-btn'')
           \<and> \<not> loading_after (js ''login-btn'') True evs"
    by blast
  obtain evs2 where "trace (failure_state CONFIG 1 wrong_password (login_attempted good_form fresh))
      = trace (login_attempted good_form fresh) @ evs2"
    using failure_state_trace by blast
  with r(1,2) have "SetLoading True (js ''login-btn'') \<in> set evs"
    by (auto simp add: handleLogin_rejected [OF u good_form_valid] started_trace)
  with r 1 show ?thesis by blast
qed

text \<open>
  Claim C4. \<open>incrementLoginAttempts\<close> changes nothing when rate limiting is disabled.
  Otherwise, in a loaded module, it adds exactly one to the count, sets the timestamp to the
  clock reading and stores the record, which \<open>getLoginAttempts\<close> then reads back. From a
  page loaded with nothing stored, five calls under \<open>CONFIG\<close> leave the count at 5 and the
  lock set, and \<open>checkLockout\<close> returns true until the lockout duration has passed since
  the fifth call; a sixth call leaves the count at 6 and the lock set, and \<open>checkLockout\<close>
  returns true until the duration has passed since that call.
\<close>

theorem incrementLoginAttempts_spec:
  "(\<not> enableRateLimiting cfg \<longrightarrow> incrementLoginAttempts cfg now w = Return () w)
   \<and> (enableRateLimiting cfg \<and> isLocked w \<noteq> None \<longrightarrow>
        (\<exists>w'. incrementLoginAttempts cfg now w = Return () w'
           \<and> loginAttempts w' = \<lparr>count = count (loginAttempts w) + 1, timestamp = now\<rparr>
           \<and> localStorage w' = Some (JSON_stringify (loginAttempts w'))
           \<and> getLoginAttempts later (localStorage w') = Inr (json_of_attempts (loginAttempts w'))))
   \<and> (\<exists>w0 w5 w6.
          module_load CONFIG t0 form None = Loaded w0
          \<and> record_failures CONFIG [t1, t2, t3, t4, t5] w0 = Return () w5
          \<and> count (loginAttempts w5) = 5 \<and> isLocked w5 = Some True
          \<and> (t - t5 < lockoutDuration CONFIG \<longrightarrow> checkLockout CONFIG t w5 = Return True w5)
          \<and> incrementLoginAttempts CONFIG t6 w5 = Return () w6
          \<and> count (loginAttempts w6) = 6 \<and> isLocked w6 = Some True
          \<and> (t' - t6 < lockoutDuration CONFIG \<longrightarrow> checkLockout CONFIG t' w6 = Return True w6))"
proof -
  have a: "\<not> enableRateLimiting cfg \<longrightarrow> incrementLoginAttempts cfg now w = Return () w"
    by (simp add: incrementLoginAttempts_def)
  have b: "enableRateLimiting cfg \<and> isLocked w \<noteq> None \<longrightarrow>
        (\<exists>w'. incrementLoginAttempts cfg now w = Return () w'
           \<and> loginAttempts w' = \<lparr>count = count (loginAttempts w) + 1, timestamp = now\<rparr>
           \<and> localStorage w' = Some (JSON_stringify (loginAttempts w'))
           \<and> getLoginAttempts later (localStorage w') = Inr (json_of_attempts (loginAttempts w')))"
    by (simp add: incrementLoginAttempts_initialised increment_state_fields getLoginAttempts_stored)
  have en: "enableRateLimiting CONFIG" and mx: "maxLoginAttempts CONFIG = 5"
    by (simp_all add: CONFIG_def)
  let ?w0 = "\<lparr>localStorage = None, loginAttempts = \<lparr>count = 0, timestamp = t0\<rparr>,
               isLocked = Some False, loginForm = form, trace = []\<rparr>"
  have load: "module_load CONFIG t0 form None = Loaded ?w0" by (rule module_load_absent)
  have "\<exists>w'. iterate (incrementLoginAttempts CONFIG) [t1, t2, t3, t4, t5] ?w0 = Return () w'
        \<and> loginAttempts w' = \<lparr>count = count (loginAttempts ?w0) + int (length [t1, t2, t3, t4, t5]),
                               timestamp = last [t1, t2, t3, t4, t5]\<rparr>
        \<and> localStorage w' = Some (JSON_stringify (loginAttempts w'))
        \<and> isLocked w' = Some (maxLoginAttempts CONFIG \<le> count (loginAttempts ?w0) + int (length [t1, t2, t3, t4, t5]))
        \<and> loginForm w' = loginForm ?w0"
  proof (rule iterate_counts [where m = "maxLoginAttempts CONFIG"])
    show "\<exists>w'. incrementLoginAttempts CONFIG t w = Return () w'
        \<and> loginAttempts w' = \<lparr>count = count (loginAttempts w) + 1, timestamp = t\<rparr>
        \<and> localStorage w' = Some (JSON_stringify (loginAttempts w'))
        \<and> isLocked w' = Some (maxLoginAttempts CONFIG \<le> count (loginAttempts w) + 1)
        \<and> loginForm w' = loginForm w" if "isLocked w = Some False" for t w
      using that by (rule incrementLoginAttempts_step [OF en])
  qed (simp_all add: mx)
  then obtain w5 where run: "record_failures CONFIG [t1, t2, t3, t4, t5] ?w0 = Return () w5"
    and la: "loginAttempts w5 = \<lparr>count = 5, timestamp = t5\<rparr>"
    and st: "localStorage w5 = Some (JSON_stringify \<lparr>count = 5, timestamp = t5\<rparr>)"
    and lk: "isLocked w5 = Some True"
    by (auto simp: record_failures_def mx)
  have chk5: "t - t5 < lockoutDuration CONFIG \<longrightarrow> checkLockout CONFIG t w5 = Return True w5"
    by (simp add: checkLockout_stored [OF en st] mx)
  let ?w6 = "increment_state CONFIG t6 w5"
  have inc: "incrementLoginAttempts CONFIG t6 w5 = Return () ?w6"
    using lk by (simp add: incrementLoginAttempts_initialised)
  have la6: "loginAttempts ?w6 = \<lparr>count = 6, timestamp = t6\<rparr>"
    and st6: "localStorage ?w6 = Some (JSON_stringify \<lparr>count = 6, timestamp = t6\<rparr>)"
    and lk6: "isLocked ?w6 = Some True"
    using la lk by (simp_all add: increment_state_fields [OF en] mx)
  have chk6: "t' - t6 < lockoutDuration CONFIG \<longrightarrow> checkLockout CONFIG t' ?w6 = Return True ?w6"
    by (simp add: checkLockout_stored [OF en st6] mx)
  from load run la lk chk5 inc la6 lk6 chk6
  have "\<exists>w0 w5 w6.
          module_load CONFIG t0 form None = Loaded w0
          \<and> record_failures CONFIG [t1, t2, t3, t4, t5] w0 = Return () w5
          \<and> count (loginAttempts w5) = 5 \<and> isLocked w5 = Some True
          \<and> (t - t5 < lockoutDuration CONFIG \<longrightarrow> checkLockout CONFIG t w5 = Return True w5)
          \<and> incrementLoginAttempts CONFIG t6 w5 = Return () w6
          \<and> count (loginAttempts w6) = 6 \<and> isLocked w6 = Some True
          \<and> (t' - t6 < lockoutDuration CONFIG \<longrightarrow> checkLockout CONFIG t' w6 = Return True w6)"
    by (intro exI [of _ ?w0] exI [of _ w5] exI [of _ ?w6]) simp
  with a b show ?thesis by blast
qed

theorem incrementLoginAttempts_spec_witness:
  "\<not> enableRateLimiting (CONFIG\<lparr>enableRateLimiting := False\<rparr>)
   \<and> incrementLoginAttempts (CONFIG\<lparr>enableRateLimiting := False\<rparr>) 1000 fresh = Return () fresh
   \<and> enableRateLimiting CONFIG \<and> isLocked fresh \<noteq> None
   \<and> (\<exists>w'. incrementLoginAttempts CONFIG 1000 fresh = Return () w'
         \<and> loginAttempts w' = \<lparr>count = 1, timestamp = 1000\<rparr>
         \<and> getLoginAttempts 2000 (localStorage w') = Inr (json_of_attempts \<lparr>count = 1, timestamp = 1000\<rparr>))
   \<and> (7000 :: int) - 5000 < lockoutDuration CONFIG
   \<and> (8000 :: int) - 6000 < lockoutDuration CONFIG
   \<and> (\<exists>w0 w5 w6.
          module_load CONFIG 0 True None = Loaded w0
          \<and> record_failures CONFIG [1000, 2000, 3000, 4000, 5000] w0 = Return () w5
          \<and> count (loginAttempts w5) = 5 \<and> isLocked w5 = Some True
          \<and> checkLockout CONFIG 7000 w5 = Return True w5
          \<and> incrementLoginAttempts CONFIG 6000 w5 = Return () w6
          \<and> count (loginAttempts w6) = 6 \<and> isLocked w6 = Some True
          \<and> checkLockout CONFIG 8000 w6 = Return True w6)"
proof -
  have 1: "\<not> enableRateLimiting (CONFIG\<lparr>enableRateLimiting := False\<rparr>)" by simp
  have 2: "enableRateLimiting CONFIG \<and> isLocked fresh \<noteq> None" by (simp add: CONFIG_def fresh_def)
  have 3: "(7000 :: int) - 5000 < lockoutDuration CONFIG" "(8000 :: int) - 6000 < lockoutDuration CONFIG"
    by (simp_all add: CONFIG_def)
  from incrementLoginAttempts_spec [of "CONFIG\<lparr>enableRateLimiting := False\<rparr>" 1000 fresh] 1
  have 4: "incrementLoginAttempts (CONFIG\<lparr>enableRateLimiting := False\<rparr>) 1000 fresh = Return () fresh"
    by blast
  from incrementLoginAttempts_spec [of CONFIG 1000 fresh 2000] 2
  obtain w' where "incrementLoginAttempts CONFIG 1000 fresh = Return () w'"
    "loginAttempts w' = \<lparr>count = count (loginAttempts fresh) + 1, timestamp = 1000\<rparr>"
    "getLoginAttempts 2000 (localStorage w') = Inr (json_of_attempts (loginAttempts w'))"
    by blast
  moreover have "count (loginAttempts fresh) = 0" by (simp add: fresh_def)
  ultimately have 5: "\<exists>w'. incrementLoginAttempts CONFIG 1000 fresh = Return () w'
         \<and> loginAttempts w' = \<lparr>count = 1, timestamp = 1000\<rparr>
         \<and> getLoginAttempts 2000 (localStorage w') = Inr (json_of_attempts \<lparr>count = 1, timestamp = 1000\<rparr>)"
    by simp
  from incrementLoginAttempts_spec [of CONFIG 0 fresh 0 0 True 1000 2000 3000 4000 5000 7000 6000 8000] 3
  have 6: "\<exists>w0 w5 w6.
          module_load CONFIG 0 True None = Loaded w0
          \<and> record_failures CONFIG [1000, 2000, 3000, 4000, 5000] w0 = Return () w5
          \<and> count (loginAttempts w5) = 5 \<and> isLocked w5 = Some True
          \<and> checkLockout CONFIG 7000 w5 = Return True w5
          \<and> incrementLoginAttempts CONFIG 6000 w5 = Return () w6
          \<and> count (loginAttempts w6) = 6 \<and> isLocked w6 = Some True
          \<and> checkLockout CONFIG 8000 w6 = Return True w6"
    by blast
  from 1 2 3 4 5 6 show ?thesis by blast
qed

text \<open>
  Claim C10. With rate limiting enabled and the lock not set, a Google sign-in that the
  provider rejects, with whatever error (a popup closed by the user and a blocked popup
  included), adds one to the count, stores the record and sets the lock when the count
  reaches the maximum: it leaves the record, the stored item and the lock exactly as a
  rejected password login at the same time does. Starting from a count of 0, as many closed
  popups in a row as \<open>maxLoginAttempts\<close> set the lock, and \<open>checkLockout\<close> then returns
  true until the lockout duration has passed since the last of them.
\<close>

theorem popup_failures_count:
  assumes en: "enableRateLimiting cfg" and unlocked: "isLocked w = Some False"
  shows
   "(\<exists>w'. handleGoogleLogin cfg (Some err) now later w = Return () w'
        \<and> loginAttempts w' = \<lparr>count = count (loginAttempts w) + 1, timestamp = later\<rparr>
        \<and> localStorage w' = Some (JSON_stringify (loginAttempts w'))
        \<and> isLocked w' = Some (maxLoginAttempts cfg \<le> count (loginAttempts w) + 1)
        \<and> (form_valid cfg form \<longrightarrow>
             (\<exists>w''. handleLogin cfg form None (Some err') now later w = Return () w''
                \<and> loginAttempts w'' = loginAttempts w'
                \<and> localStorage w'' = localStorage w'
                \<and> isLocked w'' = isLocked w')))
    \<and> (count (loginAttempts w) = 0 \<and> ts \<noteq> [] \<and> int (length ts) = maxLoginAttempts cfg \<longrightarrow>
         (\<exists>w'. popup_failures cfg popup_closed ts w = Return () w'
            \<and> count (loginAttempts w') = maxLoginAttempts cfg
            \<and> isLocked w' = Some True
            \<and> (t - last ts < lockoutDuration cfg \<longrightarrow> checkLockout cfg t w' = Return True w')))"
proof -
  let ?g = "setLoading False (js ''google-login-btn'') (failure_state cfg later err (google_attempted w))"
  let ?l = "setLoading False (js ''login-btn'') (failure_state cfg later err' (login_attempted form w))"
  have g: "handleGoogleLogin cfg (Some err) now later w = Return () ?g"
    by (rule handleGoogleLogin_rejected [OF unlocked])
  have gf: "loginAttempts ?g = \<lparr>count = count (loginAttempts w) + 1, timestamp = later\<rparr>"
    "localStorage ?g = Some (JSON_stringify (loginAttempts ?g))"
    "isLocked ?g = Some (maxLoginAttempts cfg \<le> count (loginAttempts w) + 1)"
    using unlocked by (simp_all add: failure_state_fields [OF en])
  have l: "form_valid cfg form \<longrightarrow>
      handleLogin cfg form None (Some err') now later w = Return () ?l
      \<and> loginAttempts ?l = loginAttempts ?g \<and> localStorage ?l = localStorage ?g
      \<and> isLocked ?l = isLocked ?g"
    using unlocked by (simp add: handleLogin_rejected failure_state_fields [OF en])
  have first: "\<exists>w'. handleGoogleLogin cfg (Some err) now later w = Return () w'
        \<and> loginAttempts w' = \<lparr>count = count (loginAttempts w) + 1, timestamp = later\<rparr>
        \<and> localStorage w' = Some (JSON_stringify (loginAttempts w'))
        \<and> isLocked w' = Some (maxLoginAttempts cfg \<le> count (loginAttempts w) + 1)
        \<and> (form_valid cfg form \<longrightarrow>
             (\<exists>w''. handleLogin cfg form None (Some err') now later w = Return () w''
                \<and> loginAttempts w'' = loginAttempts w'
                \<and> localStorage w'' = localStorage w'
                \<and> isLocked w'' = isLocked w'))"
    using g gf l by (intro exI [of _ ?g]) blast
  have second: "\<exists>w'. popup_failures cfg popup_closed ts w = Return () w'
            \<and> count (loginAttempts w') = maxLoginAttempts cfg
            \<and> isLocked w' = Some True
            \<and> (t - last ts < lockoutDuration cfg \<longrightarrow> checkLockout cfg t w' = Return True w')"
    if fresh: "count (loginAttempts w) = 0" and ne: "ts \<noteq> []"
      and len: "int (length ts) = maxLoginAttempts cfg"
  proof -
    have "\<exists>w'. iterate (\<lambda>t. handleGoogleLogin cfg (Some popup_closed) t t) ts w = Return () w'
        \<and> loginAttempts w' = \<lparr>count = count (loginAttempts w) + int (length ts), timestamp = last ts\<rparr>
        \<and> localStorage w' = Some (JSON_stringify (loginAttempts w'))
        \<and> isLocked w' = Some (maxLoginAttempts cfg \<le> count (loginAttempts w) + int (length ts))
        \<and> loginForm w' = loginForm w"
    proof (rule iterate_counts [where m = "maxLoginAttempts cfg"])
      show "\<exists>w'. handleGoogleLogin cfg (Some popup_closed) t t w = Return () w'
          \<and> loginAttempts w' = \<lparr>count = count (loginAttempts w) + 1, timestamp = t\<rparr>
          \<and> localStorage w' = Some (JSON_stringify (loginAttempts w'))
          \<and> isLocked w' = Some (maxLoginAttempts cfg \<le> count (loginAttempts w) + 1)
          \<and> loginForm w' = loginForm w" if "isLocked w = Some False" for t w
        using that by (rule handleGoogleLogin_step [OF en])
    qed (simp_all add: unlocked ne fresh len)
    then obtain w' where run: "popup_failures cfg popup_closed ts w = Return () w'"
      and la: "loginAttempts w' = \<lparr>count = maxLoginAttempts cfg, timestamp = last ts\<rparr>"
      and st: "localStorage w' = Some (JSON_stringify \<lparr>count = maxLoginAttempts cfg, timestamp = last ts\<rparr>)"
      and lk: "isLocked w' = Some True"
      by (auto simp: popup_failures_def fresh len)
    have "t - last ts < lockoutDuration cfg \<longrightarrow> checkLockout cfg t w' = Return True w'"
      by (simp add: checkLockout_stored [OF en st])
    with run la lk show ?thesis by simp
  qed
  from first second show ?thesis by blast
qed

theorem popup_failures_count_witness:
  "enableRateLimiting CONFIG \<and> isLocked fresh = Some False
   \<and> count (loginAttempts fresh) = 0
   \<and> int (length [1000, 2000, 3000, 4000, 5000 :: int]) = maxLoginAttempts CONFIG
   \<and> form_valid CONFIG good_form
   \<and> (7000 :: int) - last [1000, 2000, 3000, 4000, 5000] < lockoutDuration CONFIG
   \<and> (\<exists>w' w''. handleGoogleLogin CONFIG (Some popup_closed) 1000 2000 fresh = Return () w'
         \<and> loginAttempts w' = \<lparr>count = 1, timestamp = 2000\<rparr>
         \<and> handleLogin CONFIG good_form None (Some wrong_password) 1000 2000 fresh = Return () w''
         \<and> loginAttempts w'' = loginAttempts w' \<and> localStorage w'' = localStorage w'
         \<and> isLocked w'' = isLocked w')
   \<and> (\<exists>w'. popup_failures CONFIG popup_closed [1000, 2000, 3000, 4000, 5000] fresh = Return () w'
         \<and> count (loginAttempts w') = 5 \<and> isLocked w' = Some True
         \<and> checkLockout CONFIG 7000 w' = Return True w')"
proof -
  have en: "enableRateLimiting CONFIG" and un: "isLocked fresh = Some False"
    and c0: "count (loginAttempts fresh) = 0"
    and len: "int (length [1000, 2000, 3000, 4000, 5000 :: int]) = maxLoginAttempts CONFIG"
    and win: "(7000 :: int) - last [1000, 2000, 3000, 4000, 5000] < lockoutDuration CONFIG"
    by (simp_all add: CONFIG_def fresh_def)
  note inst = popup_failures_count [OF en un, of popup_closed 1000 2000 good_form wrong_password
      "[1000, 2000, 3000, 4000, 5000]" 7000]
  from inst good_form_valid c0
  have a: "\<exists>w' w''. handleGoogleLogin CONFIG (Some popup_closed) 1000 2000 fresh = Return () w'
         \<and> loginAttempts w' = \<lparr>count = 1, timestamp = 2000\<rparr>
         \<and> handleLogin CONFIG good_form None (Some wrong_password) 1000 2000 fresh = Return () w''
         \<and> loginAttempts w'' = loginAttempts w' \<and> localStorage w'' = localStorage w'
         \<and> isLocked w'' = isLocked w'"
    by auto
  from inst c0 len win
  have b: "\<exists>w'. popup_failures CONFIG popup_closed [1000, 2000, 3000, 4000, 5000] fresh = Return () w'
         \<and> count (loginAttempts w') = 5 \<and> isLocked w' = Some True
         \<and> checkLockout CONFIG 7000 w' = Return True w'"
    by (auto simp: CONFIG_def)
  from en un c0 len win good_form_valid a b show ?thesis by blast
qed

text \<open>
  Claim C2 fails on the code in the case it describes last. When the module is loaded with
  the stored record \<open>{"count":5,"timestamp":0}\<close> and the clock at 900000, the lockout has
  expired; \<open>checkLockout\<close>, called as the initialiser of \<open>isLocked\<close>, resets the record and
  removes the stored item (lines 310 and 311), and then line 312 assigns \<open>isLocked\<close>
  before it is initialised: the call throws a \<open>ReferenceError\<close> instead of returning false,
  and the load of the module fails with it.
\<close>

theorem checkLockout_expired_at_load:
  "checkLockout CONFIG 900000
      \<lparr>localStorage = Some (JSON_stringify \<lparr>count = 5, timestamp = 0\<rparr>),
       loginAttempts = \<lparr>count = 5, timestamp = 0\<rparr>, isLocked = None,
       loginForm = True, trace = []\<rparr>
     = Throw ReferenceError
         \<lparr>localStorage = None, loginAttempts = \<lparr>count = 0, timestamp = 900000\<rparr>,
          isLocked = None, loginForm = True, trace = []\<rparr>
   \<and> module_load CONFIG 900000 True (Some (JSON_stringify \<lparr>count = 5, timestamp = 0\<rparr>))
       = LoadFailed ReferenceError None
   \<and> JSON_stringify \<lparr>count = 5, timestamp = 0\<rparr>
       = [0x7B] @ quoted (js ''count'') @ js '':5,'' @ quoted (js ''timestamp'') @ js '':0}''"
proof -
  have en: "enableRateLimiting CONFIG" by (simp add: CONFIG_def)
  have 1: "checkLockout CONFIG 900000
      \<lparr>localStorage = Some (JSON_stringify \<lparr>count = 5, timestamp = 0\<rparr>),
       loginAttempts = \<lparr>count = 5, timestamp = 0\<rparr>, isLocked = None,
       loginForm = True, trace = []\<rparr>
     = Throw ReferenceError
         \<lparr>localStorage = None, loginAttempts = \<lparr>count = 0, timestamp = 900000\<rparr>,
          isLocked = None, loginForm = True, trace = []\<rparr>"
    by (simp add: checkLockout_stored [OF en, where r = "\<lparr>count = 5, timestamp = 0\<rparr>"]
          resetLoginAttempts_def assign_isLocked_def)
       (simp add: CONFIG_def)
  then have "module_load CONFIG 900000 True (Some (JSON_stringify \<lparr>count = 5, timestamp = 0\<rparr>))
       = LoadFailed ReferenceError None"
    by (simp add: module_load_def getLoginAttempts_stored as_attempts_json_of)
  with 1 stored_example show ?thesis by blast
qed

text \<open>
  Claim C3 fails on the code when a lockout expires while the page stays open. Five
  rejected logins, from 1000 to 5000 on the clock, set the lock. At 905000 the lockout
  duration has passed: \<open>checkLockout\<close> would return false and reset the record. But
  \<open>handleLogin\<close> tests the variable \<open>isLocked\<close>, which nothing has cleared: the submission
  is cut short with the lockout message, "Try again in 0 minutes", the controls of the form
  are disabled and the provider is not called.
\<close>

theorem handleLogin_stale_lock:
  "module_load CONFIG 0 True None = Loaded fresh
   \<and> (case login_failures CONFIG good_form wrong_password [1000, 2000, 3000, 4000, 5000] fresh of
      Return _ w5 \<Rightarrow>
        isLocked w5 = Some True
        \<and> localStorage w5 = Some (JSON_stringify \<lparr>count = 5, timestamp = 5000\<rparr>)
        \<and> checkLockout CONFIG 905000 w5 = Return False (reset_state 905000 w5)
        \<and> handleLogin CONFIG good_form None None 905000 905001 w5
            = Return () (w5\<lparr>trace := trace w5 @ [PreventDefault,
                                ShowMessage (lockoutMessage 0) ErrorMsg, DisableFormInputs]\<rparr>)
    | _ \<Rightarrow> False)"
proof -
  have en: "enableRateLimiting CONFIG" by (simp add: CONFIG_def)
  have "\<exists>w'. iterate (\<lambda>t. handleLogin CONFIG good_form None (Some wrong_password) t t)
              [1000, 2000, 3000, 4000, 5000] fresh = Return () w'
        \<and> loginAttempts w' = \<lparr>count = count (loginAttempts fresh) + int (length [1000, 2000, 3000, 4000, 5000 :: int]),
                               timestamp = last [1000, 2000, 3000, 4000, 5000]\<rparr>
        \<and> localStorage w' = Some (JSON_stringify (loginAttempts w'))
        \<and> isLocked w' = Some (maxLoginAttempts CONFIG \<le> count (loginAttempts fresh) + int (length [1000, 2000, 3000, 4000, 5000 :: int]))
        \<and> loginForm w' = loginForm fresh"
  proof (rule iterate_counts [where m = "maxLoginAttempts CONFIG"])
    show "\<exists>w'. handleLogin CONFIG good_form None (Some wrong_password) t t w = Return () w'
        \<and> loginAttempts w' = \<lparr>count = count (loginAttempts w) + 1, timestamp = t\<rparr>
        \<and> localStorage w' = Some (JSON_stringify (loginAttempts w'))
        \<and> isLocked w' = Some (maxLoginAttempts CONFIG \<le> count (loginAttempts w) + 1)
        \<and> loginForm w' = loginForm w" if "isLocked w = Some False" for t w
      using that by (rule handleLogin_step [OF en good_form_valid])
  qed (simp_all add: fresh_def CONFIG_def)
  then obtain w5 where run: "login_failures CONFIG good_form wrong_password [1000, 2000, 3000, 4000, 5000] fresh
        = Return () w5"
    and la: "loginAttempts w5 = \<lparr>count = 5, timestamp = 5000\<rparr>"
    and st: "localStorage w5 = Some (JSON_stringify \<lparr>count = 5, timestamp = 5000\<rparr>)"
    and lk: "isLocked w5 = Some True"
    and fm: "loginForm w5"
    by (auto simp: login_failures_def fresh_def CONFIG_def)
  have chk: "checkLockout CONFIG 905000 w5 = Return False (reset_state 905000 w5)"
    using lk by (simp add: checkLockout_stored [OF en st] resetLoginAttempts_initialised)
                (simp add: CONFIG_def)
  have "remainingTime CONFIG 905000 (emit PreventDefault w5) = 0"
    using la by (simp add: remainingTime_def CONFIG_def)
  then have "handleLogin CONFIG good_form None None 905000 905001 w5
            = Return () (w5\<lparr>trace := trace w5 @ [PreventDefault,
                                ShowMessage (lockoutMessage 0) ErrorMsg, DisableFormInputs]\<rparr>)"
    using fm by (simp add: handleLogin_locked [OF lk] showLockoutMessage_def showMessage_def emit_def)
  moreover have "module_load CONFIG 0 True None = Loaded fresh"
    by (simp add: module_load_absent fresh_def)
  ultimately show ?thesis using run lk st chk by simp
qed

end
